theory Spec2Isabelle
  imports Complex_Main
begin

section \<open>Python values\<close>

text \<open>
  A Python \<open>str\<close> is modelled as a \<open>string\<close>; a \<open>char\<close> stands for the code point
  of the same number (U+0000 to U+00FF). \<open>is_space\<close> is \<open>str.isspace\<close> on one character,
  which is also what \<open>str.strip()\<close> removes and what \<open>\s\<close> matches in \<open>re\<close>: among these
  code points the characters 9-13, 28-32, 133 and 160.
\<close>

definition is_space :: "char \<Rightarrow> bool" where
  "is_space c = (of_char c \<in> set [9, 10, 11, 12, 13, 28, 29, 30, 31, 32, 133, 160 :: nat])"

definition nl :: char where
  "nl = CHR 0x0A"

definition tab :: char where
  "tab = CHR 0x09"

definition sp :: char where
  "sp = CHR 0x20"

definition lstrip :: "string \<Rightarrow> string" where
  "lstrip s = dropWhile is_space s"

definition rstrip :: "string \<Rightarrow> string" where
  "rstrip s = rev (dropWhile is_space (rev s))"

definition strip :: "string \<Rightarrow> string" where
  "strip s = rstrip (lstrip s)"

text \<open>The slices \<open>s[:n]\<close> and \<open>s[-n:]\<close> (the latter only used with \<open>n > 0\<close>).\<close>

definition py_take :: "int \<Rightarrow> 'a list \<Rightarrow> 'a list" where
  "py_take n xs = (if 0 \<le> n then take (nat n) xs else take (length xs - nat (- n)) xs)"

definition py_suffix :: "int \<Rightarrow> 'a list \<Rightarrow> 'a list" where
  "py_suffix n xs = drop (length xs - nat n) xs"

definition starts_with :: "string \<Rightarrow> string \<Rightarrow> bool" where
  "starts_with sub s = (take (length sub) s = sub)"

definition ends_with :: "string \<Rightarrow> string \<Rightarrow> bool" where
  "ends_with sub s = (length sub \<le> length s \<and> drop (length s - length sub) s = sub)"

text \<open>\<open>sub in s\<close> on strings.\<close>

fun contains :: "string \<Rightarrow> string \<Rightarrow> bool" where
  "contains sub [] = (sub = [])"
| "contains sub (c # cs) = (starts_with sub (c # cs) \<or> contains sub cs)"

text \<open>\<open>str(n)\<close> for a non-negative integer.\<close>

definition digit_char :: "nat \<Rightarrow> char" where
  "digit_char d = ''0123456789'' ! d"

fun str_nat :: "nat \<Rightarrow> string" where
  "str_nat n = (if n < 10 then [digit_char n] else str_nat (n div 10) @ [digit_char (n mod 10)])"

declare str_nat.simps [simp del]

text \<open>
  Exceptions are values. \<open>ClientResponseError\<close> (raised by \<open>raise_for_status\<close>, carrying the
  HTTP status) and \<open>ClientConnectionError\<close> are aiohttp's, both subclasses of
  \<open>aiohttp.ClientError\<close>; \<open>AsyncTimeoutError\<close> is \<open>asyncio.TimeoutError\<close>.
\<close>

datatype py_exn =
    ValidationError
  | ValueError
  | KeyError
  | JSONDecodeError
  | XMLSyntaxError
  | ElementPathSyntaxError
  | ClientResponseError nat
  | ClientConnectionError
  | AsyncTimeoutError
  | PlainException string

text \<open>A \<open>datetime\<close> is kept as its ISO-8601 text, so \<open>isoformat\<close> is the identity.\<close>

type_synonym datetime = string

text \<open>The values found in payload and metadata dictionaries.\<close>

datatype pval = PStr string | PInt int

section \<open>utils/retry.py\<close>

text \<open>
  \<open>retry_with_exponential_backoff\<close>. The awaited function is given as its outcome at each
  attempt number; \<open>exceptions\<close> is the test \<open>isinstance(e, exceptions)\<close>; \<open>rnd a\<close> is the
  value \<open>random.random()\<close> returns at attempt \<open>a\<close>. The result is what the call returns or
  raises, together with the list of delays slept, one per failed attempt that is retried;
  the number of calls made to the function is one more than the number of sleeps.
  Delays are reals (the floats of the source, without rounding).
\<close>

definition backoff_delay :: "real \<Rightarrow> real \<Rightarrow> real \<Rightarrow> (nat \<Rightarrow> real) \<Rightarrow> nat \<Rightarrow> real" where
  "backoff_delay base_delay max_delay jitter rnd attempt =
     (let delay = min (base_delay * 2 ^ attempt) max_delay;
          jitter_amount = delay * jitter * rnd attempt
      in delay + jitter_amount)"

fun retry_loop ::
  "(nat \<Rightarrow> py_exn + 'a) \<Rightarrow> (py_exn \<Rightarrow> bool) \<Rightarrow> nat \<Rightarrow> (nat \<Rightarrow> real) \<Rightarrow>
   nat list \<Rightarrow> py_exn option \<Rightarrow> real list \<Rightarrow> (py_exn + 'a) \<times> real list" where
  "retry_loop func exceptions max_retries delay_of [] last_exception slept =
     (case last_exception of
        Some e \<Rightarrow> (Inl e, slept)
      | None \<Rightarrow> (Inl (PlainException ''Unexpected retry state''), slept))"
| "retry_loop func exceptions max_retries delay_of (attempt # rest) last_exception slept =
     (case func attempt of
        Inr v \<Rightarrow> (Inr v, slept)
      | Inl e \<Rightarrow>
          if exceptions e then
            (if attempt = max_retries then (Inl e, slept)
             else retry_loop func exceptions max_retries delay_of rest (Some e)
                    (slept @ [delay_of attempt]))
          else (Inl e, slept))"

definition retry_with_exponential_backoff ::
  "(nat \<Rightarrow> py_exn + 'a) \<Rightarrow> nat \<Rightarrow> real \<Rightarrow> real \<Rightarrow> real \<Rightarrow> (py_exn \<Rightarrow> bool) \<Rightarrow>
   (nat \<Rightarrow> real) \<Rightarrow> (py_exn + 'a) \<times> real list" where
  "retry_with_exponential_backoff func max_retries base_delay max_delay jitter exceptions rnd =
     retry_loop func exceptions max_retries (backoff_delay base_delay max_delay jitter rnd)
       [0 ..< max_retries + 1] None []"

definition any_exception :: "py_exn \<Rightarrow> bool" where
  "any_exception e = True"

text \<open>\<open>isinstance(e, (aiohttp.ClientError, asyncio.TimeoutError))\<close>.\<close>

fun client_or_timeout :: "py_exn \<Rightarrow> bool" where
  "client_or_timeout (ClientResponseError status) = True"
| "client_or_timeout ClientConnectionError = True"
| "client_or_timeout AsyncTimeoutError = True"
| "client_or_timeout e = False"

section \<open>models/chunk.py\<close>

record TextChunk =
  tc_chunk_id :: string
  tc_text :: string
  source_url :: string
  source_title :: string
  chunk_index :: int
  total_chunks :: int
  token_count :: int
  char_start :: int
  char_end :: int
  tc_metadata :: "string \<rightharpoonup> pval"

text \<open>
  The two field validators. Each receives the fields validated before its own
  (\<open>info.data\<close>), in the order the class declares them: \<open>char_start\<close> precedes
  \<open>char_end\<close>, and \<open>total_chunks\<close> follows \<open>chunk_index\<close>, so \<open>validate_index\<close> is
  always called without it.
\<close>

definition validate_char_range :: "int \<Rightarrow> int option \<Rightarrow> bool" where
  "validate_char_range v data_char_start =
     (let char_start = (case data_char_start of Some s \<Rightarrow> s | None \<Rightarrow> 0)
      in \<not> v \<le> char_start)"

definition validate_index :: "int \<Rightarrow> int option \<Rightarrow> bool" where
  "validate_index v data_total_chunks =
     (let tot = (case data_total_chunks of Some t \<Rightarrow> t | None \<Rightarrow> 0)
      in \<not> (tot \<noteq> 0 \<and> v \<ge> tot))"

text \<open>Construction of a \<open>TextChunk\<close>: the field constraints, then the validators.\<close>

definition TextChunk_init ::
  "string \<Rightarrow> string \<Rightarrow> string \<Rightarrow> string \<Rightarrow> int \<Rightarrow> int \<Rightarrow> int \<Rightarrow> int \<Rightarrow> int \<Rightarrow>
   (string \<rightharpoonup> pval) \<Rightarrow> py_exn + TextChunk" where
  "TextChunk_init cid txt url title idx tot tokens cstart cend meta =
     (if 10 \<le> length txt
         \<and> length title \<le> 500
         \<and> 0 \<le> idx \<and> validate_index idx None
         \<and> 0 < tot
         \<and> 1 \<le> tokens
         \<and> 0 \<le> cstart
         \<and> 0 < cend \<and> validate_char_range cend (if 0 \<le> cstart then Some cstart else None)
      then Inr \<lparr> tc_chunk_id = cid, tc_text = txt, source_url = url, source_title = title,
                 chunk_index = idx, total_chunks = tot, token_count = tokens,
                 char_start = cstart, char_end = cend, tc_metadata = meta \<rparr>
      else Inl ValidationError)"

text \<open>\<open>generate_id\<close>; \<open>md5\<close> is the hexadecimal MD5 digest, a parameter.\<close>

definition generate_id :: "(string \<Rightarrow> string) \<Rightarrow> string \<Rightarrow> nat \<Rightarrow> string" where
  "generate_id md5 url chunk_idx = take 16 (md5 url) @ ''_'' @ str_nat chunk_idx"

section \<open>models/embedding.py\<close>

record Embedding =
  chunk_id :: string
  vector :: "real list"
  model :: string
  created_at :: datetime
  chunk_ref :: "TextChunk option"

record VectorRecord =
  vr_id :: string
  vr_vector :: "real list"
  payload :: "string \<rightharpoonup> pval"

definition validate_vector_dimensions :: "real list \<Rightarrow> py_exn + real list" where
  "validate_vector_dimensions v = (if length v \<noteq> 1024 then Inl ValueError else Inr v)"

text \<open>
  Construction of an \<open>Embedding\<close>: the field constraint (\<open>min_length\<close> and
  \<open>max_length\<close> 1024), then the validator; either failure is a \<open>ValidationError\<close>.
\<close>

definition Embedding_init ::
  "string \<Rightarrow> real list \<Rightarrow> string \<Rightarrow> datetime \<Rightarrow> TextChunk option \<Rightarrow> py_exn + Embedding" where
  "Embedding_init cid v m created cref =
     (if length v < 1024 \<or> 1024 < length v then Inl ValidationError
      else case validate_vector_dimensions v of
        Inl e \<Rightarrow> Inl ValidationError
      | Inr v' \<Rightarrow> Inr \<lparr> chunk_id = cid, vector = v', model = m, created_at = created,
                        chunk_ref = cref \<rparr>)"

definition REQUIRED_PAYLOAD_FIELDS :: "string list" where
  "REQUIRED_PAYLOAD_FIELDS =
     [''text'', ''url'', ''title'', ''chunk_index'', ''total_chunks'', ''token_count'',
      ''model'', ''created_at'']"

definition validate_payload :: "(string \<rightharpoonup> pval) \<Rightarrow> py_exn + (string \<rightharpoonup> pval)" where
  "validate_payload v =
     (let missing = filter (\<lambda>f. v f = None) REQUIRED_PAYLOAD_FIELDS
      in if missing \<noteq> [] then Inl ValueError else Inr v)"

definition VectorRecord_init ::
  "string \<Rightarrow> real list \<Rightarrow> (string \<rightharpoonup> pval) \<Rightarrow> py_exn + VectorRecord" where
  "VectorRecord_init rid v p =
     (if length v < 1024 \<or> 1024 < length v then Inl ValidationError
      else case validate_payload p of
        Inl e \<Rightarrow> Inl ValidationError
      | Inr p' \<Rightarrow>
          (case validate_vector_dimensions v of
             Inl e \<Rightarrow> Inl ValidationError
           | Inr v' \<Rightarrow> Inr \<lparr> vr_id = rid, vr_vector = v', payload = p' \<rparr>))"

text \<open>
  \<open>Embedding.to_vector_record\<close>. The dictionary display lists the eight keys and then
  unpacks the chunk's metadata, whose entries win over earlier ones.
\<close>

definition to_vector_record :: "Embedding \<Rightarrow> py_exn + VectorRecord" where
  "to_vector_record e =
     (case chunk_ref e of
        None \<Rightarrow> Inl ValueError
      | Some c \<Rightarrow>
          VectorRecord_init (chunk_id e) (vector e)
            ([''text'' \<mapsto> PStr (tc_text c),
              ''url'' \<mapsto> PStr (source_url c),
              ''title'' \<mapsto> PStr (source_title c),
              ''chunk_index'' \<mapsto> PInt (chunk_index c),
              ''total_chunks'' \<mapsto> PInt (total_chunks c),
              ''token_count'' \<mapsto> PInt (token_count c),
              ''model'' \<mapsto> PStr (model e),
              ''created_at'' \<mapsto> PStr (created_at e)] ++ tc_metadata c))"

section \<open>config.py\<close>

text \<open>The fields of \<open>PipelineConfig\<close> that the modelled stages read.\<close>

record PipelineConfig =
  docusaurus_url :: string
  sitemap_url :: string
  cohere_model :: string
  cohere_batch_size :: int
  chunk_size :: int
  chunk_overlap :: int

section \<open>services/embedder.py\<close>

text \<open>
  The provider's answer to one POST: a transport failure, or a status with the value of
  the \<open>embeddings\<close> key of the JSON body: a list of lists, an object with the key
  \<open>float\<close>, an object without it (also what \<open>result.get("embeddings", {})\<close> gives when
  the key is missing), or anything else.
\<close>

datatype raw_embeddings =
    RawList "real list list"
  | RawDictFloat "real list list"
  | RawDictIndexed "string \<rightharpoonup> real list"
  | RawOther

datatype cohere_reply = TransportFailure | HttpReply nat raw_embeddings

fun indexed_embeddings :: "(string \<rightharpoonup> real list) \<Rightarrow> nat list \<Rightarrow> py_exn + real list list" where
  "indexed_embeddings raw [] = Inr []"
| "indexed_embeddings raw (i # is) =
     (case raw (str_nat i) of
        None \<Rightarrow> Inl KeyError
      | Some v \<Rightarrow>
          (case indexed_embeddings raw is of Inl e \<Rightarrow> Inl e | Inr vs \<Rightarrow> Inr (v # vs)))"

definition embed_request :: "cohere_reply \<Rightarrow> nat \<Rightarrow> py_exn + real list list" where
  "embed_request reply n_texts =
     (case reply of
        TransportFailure \<Rightarrow> Inl ClientConnectionError
      | HttpReply status raw_embeddings \<Rightarrow>
          if status \<noteq> 200 then Inl (PlainException ''Cohere API error'')
          else (case raw_embeddings of
                  RawDictFloat embeddings \<Rightarrow> Inr embeddings
                | RawDictIndexed raw \<Rightarrow> indexed_embeddings raw [0 ..< n_texts]
                | RawList embeddings \<Rightarrow> Inr embeddings
                | RawOther \<Rightarrow> Inl (PlainException ''Unexpected embeddings format'')))"

text \<open>\<open>embed_texts\<close>; \<open>api texts attempt\<close> is the provider's answer at that attempt.\<close>

definition embed_texts ::
  "(string list \<Rightarrow> nat \<Rightarrow> cohere_reply) \<Rightarrow> (nat \<Rightarrow> real) \<Rightarrow> string list \<Rightarrow>
   py_exn + real list list" where
  "embed_texts api rnd texts =
     (if texts = [] then Inr []
      else fst (retry_with_exponential_backoff
                  (\<lambda>attempt. embed_request (api texts attempt) (length texts))
                  5 2 60 (1 / 10) any_exception rnd))"

text \<open>The inner loop of \<open>embed_chunks\<close>, over \<open>zip(batch, batch_embeddings)\<close>.\<close>

fun build_embeddings ::
  "string \<Rightarrow> datetime \<Rightarrow> (TextChunk \<times> real list) list \<Rightarrow> py_exn + Embedding list" where
  "build_embeddings m now [] = Inr []"
| "build_embeddings m now ((chunk, v) # rest) =
     (case Embedding_init (tc_chunk_id chunk) v m now (Some chunk) of
        Inl e \<Rightarrow> Inl e
      | Inr embedding \<Rightarrow>
          (case build_embeddings m now rest of
             Inl e \<Rightarrow> Inl e
           | Inr es \<Rightarrow> Inr (embedding # es)))"

text \<open>The loop over the batches \<open>chunks[i : i + batch_size]\<close>, for a positive step.\<close>

function embed_loop ::
  "(string list \<Rightarrow> nat \<Rightarrow> cohere_reply) \<Rightarrow> (nat \<Rightarrow> real) \<Rightarrow> string \<Rightarrow> datetime \<Rightarrow> nat \<Rightarrow>
   TextChunk list \<Rightarrow> Embedding list \<Rightarrow> py_exn + Embedding list" where
  "embed_loop api rnd m now bs chunks embeddings =
     (if bs = 0 \<or> chunks = [] then Inr embeddings
      else
        (let batch = take bs chunks;
             batch_texts = map tc_text batch
         in case embed_texts api rnd batch_texts of
              Inl e \<Rightarrow> Inl e
            | Inr batch_embeddings \<Rightarrow>
                (case build_embeddings m now (zip batch batch_embeddings) of
                   Inl e \<Rightarrow> Inl e
                 | Inr es \<Rightarrow> embed_loop api rnd m now bs (drop bs chunks) (embeddings @ es))))"
  by pat_completeness auto
termination
  by (relation "measure (\<lambda>(api, rnd, m, now, bs, chunks, embeddings). length chunks)") auto

declare embed_loop.simps [simp del]

text \<open>
  \<open>embed_chunks\<close>: \<open>range(0, total, batch_size)\<close> raises \<open>ValueError\<close> for a zero step
  and is empty for a negative one.
\<close>

definition embed_chunks ::
  "PipelineConfig \<Rightarrow> (string list \<Rightarrow> nat \<Rightarrow> cohere_reply) \<Rightarrow> (nat \<Rightarrow> real) \<Rightarrow> datetime \<Rightarrow>
   TextChunk list \<Rightarrow> py_exn + Embedding list" where
  "embed_chunks config api rnd now chunks =
     (if cohere_batch_size config = 0 then Inl ValueError
      else if cohere_batch_size config < 0 then Inr []
      else embed_loop api rnd (cohere_model config) now (nat (cohere_batch_size config)) chunks [])"

text \<open>
  \<open>load_embeddings_from_jsonl\<close>. The file is absent or a list of lines; a line is text that
  \<open>json.loads\<close> rejects or an object, of which the four keys read are kept. \<open>now\<close> is
  \<open>datetime.utcnow()\<close>.
\<close>

record jsonl_record =
  jr_chunk_id :: "string option"
  jr_vector :: "real list option"
  jr_model :: "string option"
  jr_created_at :: "datetime option"

datatype json_line = BadJson | JsonObject jsonl_record

fun load_lines ::
  "datetime \<Rightarrow> int option \<Rightarrow> json_line list \<Rightarrow> Embedding list \<Rightarrow> py_exn + Embedding list" where
  "load_lines now limit [] embeddings = Inr embeddings"
| "load_lines now limit (line # rest) embeddings =
     (if (case limit of None \<Rightarrow> False | Some n \<Rightarrow> n \<noteq> 0 \<and> int (length embeddings) \<ge> n)
      then Inr embeddings
      else case line of
        BadJson \<Rightarrow> Inl JSONDecodeError
      | JsonObject record \<Rightarrow>
          (case jr_chunk_id record of
             None \<Rightarrow> Inl KeyError
           | Some cid \<Rightarrow>
               (case jr_vector record of
                  None \<Rightarrow> Inl KeyError
                | Some v \<Rightarrow>
                    (case Embedding_init cid v
                            (case jr_model record of Some m \<Rightarrow> m | None \<Rightarrow> ''embed-english-v3.0'')
                            (case jr_created_at record of Some t \<Rightarrow> t | None \<Rightarrow> now)
                            None of
                       Inl e \<Rightarrow> Inl e
                     | Inr embedding \<Rightarrow> load_lines now limit rest (embeddings @ [embedding])))))"

definition load_embeddings_from_jsonl ::
  "datetime \<Rightarrow> json_line list option \<Rightarrow> int option \<Rightarrow> py_exn + Embedding list" where
  "load_embeddings_from_jsonl now input_file limit =
     (case input_file of
        None \<Rightarrow> Inr []
      | Some lines \<Rightarrow> load_lines now limit lines [])"

section \<open>services/vector_store.py\<close>

text \<open>
  A point identifier of the store is an integer or a string; the collection maps
  identifiers to points, and \<open>upsert\<close> writes each point under its identifier.
\<close>

datatype point_id = IntId nat | StrId string

record PointStruct =
  pt_id :: point_id
  pt_vector :: "real list"
  pt_payload :: "string \<rightharpoonup> pval"

type_synonym collection = "point_id \<rightharpoonup> PointStruct"

definition upsert :: "PointStruct list \<Rightarrow> collection \<Rightarrow> collection" where
  "upsert points coll = fold (\<lambda>p c. c(pt_id p \<mapsto> p)) points coll"

definition to_qdrant_point :: "VectorRecord \<Rightarrow> PointStruct" where
  "to_qdrant_point r = \<lparr> pt_id = StrId (vr_id r), pt_vector = vr_vector r, pt_payload = payload r \<rparr>"

record QdrantVectorStore =
  batch_size :: nat

definition QdrantVectorStore_init :: QdrantVectorStore where
  "QdrantVectorStore_init = \<lparr> batch_size = 100 \<rparr>"

text \<open>The points \<open>_upload_batch\<close> builds: \<open>enumerate(records)\<close>, the index as identifier.\<close>

definition batch_points :: "VectorRecord list \<Rightarrow> PointStruct list" where
  "batch_points records =
     map (\<lambda>(idx, r).
            let point = to_qdrant_point r
            in \<lparr> pt_id = IntId idx, pt_vector = pt_vector point, pt_payload = pt_payload point \<rparr>)
         (enumerate 0 records)"

text \<open>
  \<open>_upload_batch\<close>; \<open>fails points attempt\<close> says whether the store rejects the upsert of
  these points at that attempt. The collection changes when an attempt succeeds.
\<close>

definition upload_batch ::
  "(PointStruct list \<Rightarrow> nat \<Rightarrow> bool) \<Rightarrow> (nat \<Rightarrow> real) \<Rightarrow> VectorRecord list \<Rightarrow> collection \<Rightarrow>
   (py_exn + unit) \<times> collection" where
  "upload_batch fails rnd records coll =
     (let points = batch_points records;
          res = fst (retry_with_exponential_backoff
                       (\<lambda>attempt. if fails points attempt
                                   then Inl (PlainException ''upsert failed'') else Inr ())
                       5 1 60 (1 / 10) any_exception rnd)
      in case res of
           Inl e \<Rightarrow> (Inl e, coll)
         | Inr u \<Rightarrow> (Inr (), upsert points coll))"

text \<open>The fallback loop: one record at a time; \<open>str_of\<close> is \<open>str(e)\<close>.\<close>

fun upload_each ::
  "(PointStruct list \<Rightarrow> nat \<Rightarrow> bool) \<Rightarrow> (nat \<Rightarrow> real) \<Rightarrow> (py_exn \<Rightarrow> string) \<Rightarrow>
   VectorRecord list \<Rightarrow> string list \<Rightarrow> (string \<rightharpoonup> string) \<Rightarrow> collection \<Rightarrow>
   string list \<times> (string \<rightharpoonup> string) \<times> collection" where
  "upload_each fails rnd str_of [] uploaded_ids failed coll = (uploaded_ids, failed, coll)"
| "upload_each fails rnd str_of (record # rest) uploaded_ids failed coll =
     (case upload_batch fails rnd [record] coll of
        (Inr u, coll') \<Rightarrow>
          upload_each fails rnd str_of rest (uploaded_ids @ [vr_id record]) failed coll'
      | (Inl inner_e, coll') \<Rightarrow>
          upload_each fails rnd str_of rest uploaded_ids
            (failed(vr_id record \<mapsto> str_of inner_e)) coll')"

function upload_loop ::
  "(PointStruct list \<Rightarrow> nat \<Rightarrow> bool) \<Rightarrow> (nat \<Rightarrow> real) \<Rightarrow> (py_exn \<Rightarrow> string) \<Rightarrow> nat \<Rightarrow>
   VectorRecord list \<Rightarrow> string list \<Rightarrow> (string \<rightharpoonup> string) \<Rightarrow> collection \<Rightarrow>
   string list \<times> (string \<rightharpoonup> string) \<times> collection" where
  "upload_loop fails rnd str_of bs records uploaded_ids failed coll =
     (if bs = 0 \<or> records = [] then (uploaded_ids, failed, coll)
      else
        (let batch = take bs records
         in case upload_batch fails rnd batch coll of
              (Inr u, coll') \<Rightarrow>
                upload_loop fails rnd str_of bs (drop bs records)
                  (uploaded_ids @ map vr_id batch) failed coll'
            | (Inl e, coll') \<Rightarrow>
                (case upload_each fails rnd str_of batch uploaded_ids failed coll' of
                   (uploaded_ids', failed', coll'') \<Rightarrow>
                     upload_loop fails rnd str_of bs (drop bs records)
                       uploaded_ids' failed' coll'')))"
  by pat_completeness auto
termination
  by (relation "measure (\<lambda>(fails, rnd, str_of, bs, records, uploaded_ids, failed, coll).
                           length records)") auto

declare upload_loop.simps [simp del]

fun to_vector_records :: "Embedding list \<Rightarrow> py_exn + VectorRecord list" where
  "to_vector_records [] = Inr []"
| "to_vector_records (e # es) =
     (case to_vector_record e of
        Inl err \<Rightarrow> Inl err
      | Inr r \<Rightarrow>
          (case to_vector_records es of Inl err \<Rightarrow> Inl err | Inr rs \<Rightarrow> Inr (r # rs)))"

text \<open>
  \<open>upload_embeddings\<close>: what it returns or raises, and the collection afterwards.
\<close>

definition upload_embeddings ::
  "QdrantVectorStore \<Rightarrow> (PointStruct list \<Rightarrow> nat \<Rightarrow> bool) \<Rightarrow> (nat \<Rightarrow> real) \<Rightarrow>
   (py_exn \<Rightarrow> string) \<Rightarrow> Embedding list \<Rightarrow> collection \<Rightarrow>
   (py_exn + string list \<times> (string \<rightharpoonup> string)) \<times> collection" where
  "upload_embeddings self fails rnd str_of embeddings coll =
     (case to_vector_records embeddings of
        Inl e \<Rightarrow> (Inl e, coll)
      | Inr records \<Rightarrow>
          if batch_size self = 0 then (Inl ValueError, coll)
          else (case upload_loop fails rnd str_of (batch_size self) records [] Map.empty coll of
                  (uploaded_ids, failed, coll') \<Rightarrow> (Inr (uploaded_ids, failed), coll')))"

section \<open>services/crawler.py\<close>

text \<open>
  What one HTTP GET meets: a response with its status and body (after redirects), a
  transport failure, or a timeout. \<open>fetch_once\<close> is the inner \<open>_fetch\<close> of \<open>fetch_page\<close>,
  \<open>fetch_sitemap\<close> and \<open>_fetch_nested_sitemap\<close>: \<open>raise_for_status\<close> raises
  \<open>ClientResponseError\<close> for every status from 400 on. A \<open>web\<close> gives, for a URL, what the
  GET meets at each attempt of one retried call.
\<close>

datatype http_result = Response nat string | ConnectionFailed | TimedOut

type_synonym web = "string \<Rightarrow> nat \<Rightarrow> http_result"

definition fetch_once :: "http_result \<Rightarrow> py_exn + string" where
  "fetch_once r =
     (case r of
        Response status body \<Rightarrow>
          if 400 \<le> status then Inl (ClientResponseError status) else Inr body
      | ConnectionFailed \<Rightarrow> Inl ClientConnectionError
      | TimedOut \<Rightarrow> Inl AsyncTimeoutError)"

definition fetch_page :: "web \<Rightarrow> (nat \<Rightarrow> real) \<Rightarrow> string \<Rightarrow> (py_exn + string) \<times> real list" where
  "fetch_page web rnd url =
     retry_with_exponential_backoff (\<lambda>attempt. fetch_once (web url attempt))
       3 1 30 (1 / 10) client_or_timeout rnd"

subsection \<open>CrawlState\<close>

record CrawlState =
  urls_discovered :: "string list"
  urls_completed :: "string list"
  urls_failed :: "string \<rightharpoonup> string"
  last_updated :: datetime
  total_pages :: int
  completed_pages :: int

definition CrawlState_init :: "datetime \<Rightarrow> CrawlState" where
  "CrawlState_init now =
     \<lparr> urls_discovered = [], urls_completed = [], urls_failed = Map.empty,
       last_updated = now, total_pages = 0, completed_pages = 0 \<rparr>"

definition is_completed :: "CrawlState \<Rightarrow> string \<Rightarrow> bool" where
  "is_completed self url = (url \<in> set (urls_completed self))"

definition mark_completed :: "datetime \<Rightarrow> CrawlState \<Rightarrow> string \<Rightarrow> CrawlState" where
  "mark_completed now self url =
     (if url \<notin> set (urls_completed self)
      then self\<lparr> urls_completed := urls_completed self @ [url],
                 completed_pages := completed_pages self + 1,
                 last_updated := now \<rparr>
      else self)"

definition mark_failed :: "datetime \<Rightarrow> CrawlState \<Rightarrow> string \<Rightarrow> string \<Rightarrow> CrawlState" where
  "mark_failed now self url err =
     self\<lparr> urls_failed := (urls_failed self)(url \<mapsto> err), last_updated := now \<rparr>"

definition get_pending_urls :: "CrawlState \<Rightarrow> string list" where
  "get_pending_urls self =
     filter (\<lambda>url. url \<notin> set (urls_completed self) \<and> urls_failed self url = None)
       (urls_discovered self)"

subsection \<open>Sitemap discovery\<close>

text \<open>
  An element tree as lxml gives it: tag, text (absent or a string) and children.
  \<open>strip_namespaces\<close> is \<open>_strip_namespaces\<close>; a tag that starts with a brace is in Clark
  notation and so holds the closing brace that \<open>split\<close> looks for.
\<close>

datatype xml = Element (xml_tag: string) (xml_text: "string option") (xml_children: "xml list")

definition strip_tag :: "string \<Rightarrow> string" where
  "strip_tag t = (if starts_with ''{'' t then tl (dropWhile (\<lambda>c. c \<noteq> CHR ''}'') t) else t)"

fun strip_namespaces :: "xml \<Rightarrow> xml" where
  "strip_namespaces (Element t x cs) = Element (strip_tag t) x (map strip_namespaces cs)"

text \<open>All elements of a tree in document order, the root first.\<close>

fun iter_elems :: "xml \<Rightarrow> xml list" where
  "iter_elems (Element t x cs) = Element t x cs # concat (map iter_elems cs)"

text \<open>\<open>elem.findall(tag)\<close> and \<open>elem.find(tag)\<close> for a plain tag: the children with that tag.\<close>

definition findall :: "xml \<Rightarrow> string \<Rightarrow> xml list" where
  "findall elem t = filter (\<lambda>c. xml_tag c = t) (xml_children elem)"

definition find_child :: "xml \<Rightarrow> string \<Rightarrow> xml option" where
  "find_child elem t = (case findall elem t of [] \<Rightarrow> None | c # cs \<Rightarrow> Some c)"

text \<open>\<open>tree.xpath("//*[local-name() = 'url']")\<close>.\<close>

definition xpath_url :: "xml \<Rightarrow> xml list" where
  "xpath_url tree = filter (\<lambda>e. strip_tag (xml_tag e) = ''url'') (iter_elems tree)"

text \<open>
  The library calls whose result the code only receives: \<open>etree.fromstring\<close> (the parser,
  which may reject the text), and \<open>url_elem.find(".//*[local-name() = 'loc']")\<close>, the
  evaluation of that path by lxml's \<open>find\<close>, which returns an element or nothing, or raises.
\<close>

record lxml =
  fromstring :: "string \<Rightarrow> py_exn + xml"
  find_descendant_loc :: "xml \<Rightarrow> py_exn + xml option"

text \<open>The loop of \<open>_fetch_nested_sitemap\<close> over the \<open>url\<close> elements.\<close>

fun nested_locs :: "lxml \<Rightarrow> xml list \<Rightarrow> py_exn + string list" where
  "nested_locs lib [] = Inr []"
| "nested_locs lib (url_elem # rest) =
     (case find_descendant_loc lib url_elem of
        Inl e \<Rightarrow> Inl e
      | Inr loc \<Rightarrow>
          (case nested_locs lib rest of
             Inl e \<Rightarrow> Inl e
           | Inr urls \<Rightarrow>
               (case loc of
                  None \<Rightarrow> Inr urls
                | Some l \<Rightarrow>
                    (case xml_text l of
                       None \<Rightarrow> Inr urls
                     | Some t \<Rightarrow> if t \<noteq> [] then Inr (t # urls) else Inr urls))))"

text \<open>\<open>_fetch_nested_sitemap\<close>: every exception is caught and an empty list returned.\<close>

definition fetch_nested_sitemap :: "lxml \<Rightarrow> web \<Rightarrow> (nat \<Rightarrow> real) \<Rightarrow> string \<Rightarrow> string list" where
  "fetch_nested_sitemap lib web rnd url =
     (case fst (retry_with_exponential_backoff (\<lambda>attempt. fetch_once (web url attempt))
                  2 1 60 (1 / 10) client_or_timeout rnd) of
        Inl e \<Rightarrow> []
      | Inr sitemap_xml \<Rightarrow>
          (case fromstring lib sitemap_xml of
             Inl e \<Rightarrow> []
           | Inr parsed \<Rightarrow>
               (case nested_locs lib (xpath_url (strip_namespaces parsed)) of
                  Inl e \<Rightarrow> []
                | Inr urls \<Rightarrow> urls)))"

text \<open>The two loops of \<open>fetch_sitemap\<close> over the children of the root.\<close>

definition sitemap_entry :: "lxml \<Rightarrow> web \<Rightarrow> (nat \<Rightarrow> real) \<Rightarrow> xml \<Rightarrow> string list" where
  "sitemap_entry lib web rnd sitemap =
     (case find_child sitemap ''loc'' of
        None \<Rightarrow> []
      | Some loc \<Rightarrow>
          (case xml_text loc of
             None \<Rightarrow> []
           | Some t \<Rightarrow>
               if t \<noteq> [] \<and> \<not> contains ''sitemap.xml'' t
               then fetch_nested_sitemap lib web rnd t else []))"

definition url_entry :: "xml \<Rightarrow> string list" where
  "url_entry url_elem =
     (case find_child url_elem ''loc'' of
        None \<Rightarrow> []
      | Some loc \<Rightarrow>
          (case xml_text loc of
             None \<Rightarrow> []
           | Some t \<Rightarrow>
               if t \<noteq> [] \<and> (contains ''/docs/'' t \<or> ends_with ''/docs'' t) then [t] else []))"

definition fetch_sitemap ::
  "PipelineConfig \<Rightarrow> lxml \<Rightarrow> web \<Rightarrow> (nat \<Rightarrow> real) \<Rightarrow> py_exn + string list" where
  "fetch_sitemap config lib web rnd =
     (case fst (retry_with_exponential_backoff
                  (\<lambda>attempt. fetch_once (web (sitemap_url config) attempt))
                  3 2 60 (1 / 10) client_or_timeout rnd) of
        Inl e \<Rightarrow> Inl e
      | Inr sitemap_xml \<Rightarrow>
          (case fromstring lib sitemap_xml of
             Inl e \<Rightarrow> Inl e
           | Inr parsed \<Rightarrow>
               (let tree = strip_namespaces parsed
                in Inr (concat (map (sitemap_entry lib web rnd) (findall tree ''sitemap''))
                        @ concat (map url_entry (findall tree ''url''))))))"

subsection \<open>crawl_all\<close>

text \<open>
  The tasks \<open>crawl_with_semaphore\<close>, one per pending URL. They are run here one after the
  other in list order; under \<open>gather\<close> their order only changes the order in which
  completions are appended to the state. Each task fetches its URL and returns
  \<open>(url, None)\<close> or \<open>(None, error_msg)\<close>. \<open>str_of\<close> is \<open>str(e)\<close>, \<open>now\<close> is \<open>utcnow()\<close>.
\<close>

fun crawl_tasks ::
  "web \<Rightarrow> (nat \<Rightarrow> real) \<Rightarrow> (py_exn \<Rightarrow> string) \<Rightarrow> datetime \<Rightarrow> string list \<Rightarrow> CrawlState \<Rightarrow>
   (string option \<times> string option) list \<times> CrawlState" where
  "crawl_tasks web rnd str_of now [] st = ([], st)"
| "crawl_tasks web rnd str_of now (url # rest) st =
     (case fst (fetch_page web rnd url) of
        Inr html \<Rightarrow>
          (case crawl_tasks web rnd str_of now rest (mark_completed now st url) of
             (results, st') \<Rightarrow> ((Some url, None) # results, st'))
      | Inl e \<Rightarrow>
          (case crawl_tasks web rnd str_of now rest (mark_failed now st url (str_of e)) of
             (results, st') \<Rightarrow> ((None, Some (str_of e)) # results, st')))"

text \<open>The loop that separates the results.\<close>

fun separate_results ::
  "(string option \<times> string option) list \<Rightarrow> string list \<Rightarrow> (string \<rightharpoonup> string) \<Rightarrow>
   string list \<times> (string \<rightharpoonup> string)" where
  "separate_results [] completed failed = (completed, failed)"
| "separate_results ((Some url, err) # rest) completed failed =
     separate_results rest (completed @ [url]) failed"
| "separate_results ((None, Some msg) # rest) completed failed =
     separate_results rest completed (failed(msg \<mapsto> msg))"
| "separate_results ((None, None) # rest) completed failed =
     separate_results rest completed failed"

text \<open>
  \<open>crawl_all\<close>. \<open>state_file\<close> is the parsed content of the crawl state file, if the file
  exists; \<open>self_state\<close> is \<open>self.state\<close> at the call. The result lists the URLs for which
  \<open>fetch_page\<close> was called, the three values returned, and the state written to the file.
\<close>

record crawl_result =
  fetched :: "string list"
  completed :: "string list"
  failed :: "string \<rightharpoonup> string"
  errors :: "string \<rightharpoonup> string"
  saved_state :: CrawlState

definition crawl_all ::
  "PipelineConfig \<Rightarrow> lxml \<Rightarrow> web \<Rightarrow> (nat \<Rightarrow> real) \<Rightarrow> (py_exn \<Rightarrow> string) \<Rightarrow> datetime \<Rightarrow>
   CrawlState option \<Rightarrow> CrawlState \<Rightarrow> string list option \<Rightarrow> int option \<Rightarrow> bool \<Rightarrow>
   py_exn + crawl_result" where
  "crawl_all config lib web rnd str_of now state_file self_state urls_arg max_pages resume =
     (case (case urls_arg of None \<Rightarrow> fetch_sitemap config lib web rnd | Some us \<Rightarrow> Inr us) of
        Inl e \<Rightarrow> Inl e
      | Inr urls \<Rightarrow>
          (let st0 = (if resume then (case state_file of Some s \<Rightarrow> s | None \<Rightarrow> self_state)
                      else self_state);
               pending_urls = filter (\<lambda>url. \<not> is_completed st0 url) urls;
               pending_urls = (case max_pages of
                                 None \<Rightarrow> pending_urls
                               | Some n \<Rightarrow> if n \<noteq> 0 then py_take n pending_urls
                                           else pending_urls);
               st1 = st0\<lparr> urls_discovered := urls, total_pages := int (length urls) \<rparr>
           in case crawl_tasks web rnd str_of now pending_urls st1 of
                (results, st2) \<Rightarrow>
                  (case separate_results results [] Map.empty of
                     (completed_urls, failed_urls) \<Rightarrow>
                       Inr \<lparr> fetched = pending_urls, completed = completed_urls,
                             failed = failed_urls, errors = urls_failed st2,
                             saved_state = st2 \<rparr>)))"

section \<open>services/extractor.py\<close>

text \<open>
  \<open>_normalize_text\<close>. Each \<open>re.sub\<close> is a scan from the left: at a match the replacement is
  written and the scan goes on after the match, elsewhere the character is copied.
  \<open>blank\<close> is the class \<open>[ \t]\<close>.
\<close>

definition blank :: "char \<Rightarrow> bool" where
  "blank c = (c = sp \<or> c = tab)"

text \<open>\<open>re.sub(r"[ \t]+", " ", text)\<close>\<close>

function collapse_blanks :: "string \<Rightarrow> string" where
  "collapse_blanks [] = []"
| "collapse_blanks (c # cs) =
     (if blank c then sp # collapse_blanks (dropWhile blank cs) else c # collapse_blanks cs)"
  by pat_completeness auto

termination collapse_blanks
  by (relation "measure length") (auto simp: le_imp_less_Suc length_dropWhile_le)

text \<open>\<open>re.sub(r"\n[ \t]+", "\n", text)\<close>\<close>

function drop_blanks_after_nl :: "string \<Rightarrow> string" where
  "drop_blanks_after_nl [] = []"
| "drop_blanks_after_nl (c # cs) =
     (if c = nl then nl # drop_blanks_after_nl (dropWhile blank cs)
      else c # drop_blanks_after_nl cs)"
  by pat_completeness auto

termination drop_blanks_after_nl
  by (relation "measure length") (auto simp: le_imp_less_Suc length_dropWhile_le)

text \<open>\<open>re.sub(r"\n{3,}", "\n\n", text)\<close>: a run of one or two newlines has no match and is copied.\<close>

function collapse_newlines :: "string \<Rightarrow> string" where
  "collapse_newlines [] = []"
| "collapse_newlines (c # cs) =
     (if c = nl
      then (if 2 \<le> length (takeWhile (\<lambda>x. x = nl) cs) then [nl, nl]
            else nl # takeWhile (\<lambda>x. x = nl) cs)
           @ collapse_newlines (dropWhile (\<lambda>x. x = nl) cs)
      else c # collapse_newlines cs)"
  by pat_completeness auto

termination collapse_newlines
  by (relation "measure length") (auto simp: le_imp_less_Suc length_dropWhile_le)

text \<open>\<open>text.split("\n")\<close>, which always returns at least one line, and \<open>sep.join(lines)\<close>.\<close>

fun split_nl :: "string \<Rightarrow> string list" where
  "split_nl [] = [[]]"
| "split_nl (c # cs) =
     (if c = nl then [] # split_nl cs else (c # hd (split_nl cs)) # tl (split_nl cs))"

fun join_with :: "string \<Rightarrow> string list \<Rightarrow> string" where
  "join_with sep [] = []"
| "join_with sep [x] = x"
| "join_with sep (x # y # ys) = x @ sep @ join_with sep (y # ys)"

definition normalize_text :: "string \<Rightarrow> string" where
  "normalize_text text =
     (if text = [] then []
      else let text = collapse_blanks text;
               text = drop_blanks_after_nl text;
               text = collapse_newlines text;
               lines = map strip (split_nl text);
               text = join_with [nl] (filter (\<lambda>line. line \<noteq> []) lines)
           in strip text)"


section \<open>models/document.py\<close>

text \<open>
  A \<open>DocumentPage\<close>. The metadata values are strings, as \<open>validate_metadata\<close> makes them.
\<close>

record DocumentPage =
  dp_url :: string
  dp_title :: string
  extracted_text :: string
  crawled_at :: datetime
  content_hash :: string
  dp_metadata :: "string \<rightharpoonup> string"

text \<open>
  \<open>compute_hash\<close>, the validator of \<open>content_hash\<close>, with the value of
  \<open>info.data.get("extracted_text", "")\<close>; \<open>sha256\<close> is the hexadecimal SHA-256 digest, a
  parameter.
\<close>

definition compute_hash :: "(string \<Rightarrow> string) \<Rightarrow> string \<Rightarrow> string \<Rightarrow> string" where
  "compute_hash sha256 v data_extracted_text =
     (if v = [] then (if data_extracted_text \<noteq> [] then sha256 data_extracted_text else v)
      else v)"

text \<open>
  Construction of a \<open>DocumentPage\<close>: the field constraints (\<open>title\<close> of at most 500
  characters, \<open>extracted_text\<close> of at least one), the validator of \<open>content_hash\<close>, which
  runs only when the argument is given (the default \<open>""\<close> is not validated), and the model
  validator \<open>validate_text_length\<close>. \<open>crawled\<close> is the argument or \<open>utcnow()\<close>.
\<close>

definition DocumentPage_init ::
  "(string \<Rightarrow> string) \<Rightarrow> string \<Rightarrow> string \<Rightarrow> string \<Rightarrow> datetime \<Rightarrow> string option \<Rightarrow>
   (string \<rightharpoonup> string) \<Rightarrow> py_exn + DocumentPage" where
  "DocumentPage_init sha256 url title text crawled hash_arg meta =
     (if length title \<le> 500 \<and> 1 \<le> length text \<and> \<not> (text = [] \<or> strip text = [])
      then Inr \<lparr> dp_url = url, dp_title = title, extracted_text = text, crawled_at = crawled,
                 content_hash = (case hash_arg of
                                   None \<Rightarrow> []
                                 | Some v \<Rightarrow> compute_hash sha256 v text),
                 dp_metadata = meta \<rparr>
      else Inl ValidationError)"

section \<open>services/chunker.py\<close>

definition count_tokens :: "string \<Rightarrow> int" where
  "count_tokens text = int (length text) div 4"

text \<open>
  \<open>re.split(r'\n\n+', text)\<close>: the text is cut at every maximal run of two or more
  newlines. The result is never empty, so the last case is never taken.
\<close>

function split_paragraphs :: "string \<Rightarrow> string list" where
  "split_paragraphs [] = [[]]"
| "split_paragraphs (c # cs) =
     (if c = nl \<and> cs \<noteq> [] \<and> hd cs = nl
      then [] # split_paragraphs (dropWhile (\<lambda>x. x = nl) cs)
      else (case split_paragraphs cs of
              p # ps \<Rightarrow> (c # p) # ps
            | [] \<Rightarrow> [[c]]))"
  by pat_completeness auto

termination split_paragraphs
  by (relation "measure length") (auto simp: le_imp_less_Suc length_dropWhile_le)

text \<open>
  \<open>re.split(r'(?<=[.!?])\s+', para)\<close>: the text is cut at every maximal run of white space
  that follows one of the characters \<open>.\<close>, \<open>!\<close> and \<open>?\<close>.
\<close>

definition terminator :: "char \<Rightarrow> bool" where
  "terminator c = (c = CHR ''.'' \<or> c = CHR ''!'' \<or> c = CHR ''?'')"

function split_sentences :: "string \<Rightarrow> string list" where
  "split_sentences [] = [[]]"
| "split_sentences [c] = [[c]]"
| "split_sentences (c # d # cs) =
     (if terminator c \<and> is_space d
      then [c] # split_sentences (dropWhile is_space cs)
      else (case split_sentences (d # cs) of
              s # ss \<Rightarrow> (c # s) # ss
            | [] \<Rightarrow> [[c]]))"
  by pat_completeness auto

termination split_sentences
  by (relation "measure length") (auto simp: le_imp_less_Suc length_dropWhile_le less_Suc_eq_le
      intro: le_SucI)

text \<open>
  The state of the loop of \<open>_split_text\<close> is \<open>(chunks, current_chunk, current_tokens)\<close>.
  \<open>add_unit\<close> is the body run for one sentence or one paragraph, already stripped and not
  empty; the two copies of it in the source differ in the separator only, \<open>" "\<close> for a
  sentence and \<open>"\n\n"\<close> for a paragraph.
\<close>

definition add_unit ::
  "PipelineConfig \<Rightarrow> string \<Rightarrow> string list \<times> string \<times> int \<Rightarrow> string \<Rightarrow>
   string list \<times> string \<times> int" where
  "add_unit config sep st unit_text =
     (case st of
        (chunks, current_chunk, current_tokens) \<Rightarrow>
          (let unit_tokens = count_tokens unit_text
           in case (if current_tokens + unit_tokens > chunk_size config
                    then (let chunks = (if current_chunk \<noteq> []
                                        then chunks @ [strip current_chunk] else chunks)
                          in if chunk_overlap config > 0 \<and> current_chunk \<noteq> []
                             then (let overlap_text =
                                         py_suffix (chunk_overlap config * 4) current_chunk
                                   in (chunks, overlap_text, count_tokens overlap_text))
                             else (chunks, [], 0))
                    else (chunks, current_chunk, current_tokens)) of
                (chunks, current_chunk, current_tokens) \<Rightarrow>
                  (chunks,
                   current_chunk @ (if current_chunk \<noteq> [] then sep else []) @ unit_text,
                   current_tokens + unit_tokens)))"

text \<open>The loop over the sentences of a paragraph that is too big.\<close>

definition add_sentences ::
  "PipelineConfig \<Rightarrow> string list \<times> string \<times> int \<Rightarrow> string \<Rightarrow> string list \<times> string \<times> int" where
  "add_sentences config st para =
     fold (\<lambda>sentence st.
             let sentence = strip sentence
             in if sentence = [] then st else add_unit config '' '' st sentence)
       (split_sentences para) st"

text \<open>
  The body of the loop over the paragraphs. \<open>para_tokens > self.chunk_size * 1.5\<close> is
  compared on integers, \<open>2 * para_tokens > 3 * chunk_size\<close>.
\<close>

definition add_paragraph ::
  "PipelineConfig \<Rightarrow> string list \<times> string \<times> int \<Rightarrow> string \<Rightarrow> string list \<times> string \<times> int" where
  "add_paragraph config st para =
     (let para = strip para
      in if para = [] then st
         else let para_tokens = count_tokens para
              in if 2 * para_tokens > 3 * chunk_size config
                 then add_sentences config st para
                 else add_unit config [nl, nl] st para)"

definition split_text :: "PipelineConfig \<Rightarrow> string \<Rightarrow> string list" where
  "split_text config text =
     (case fold (\<lambda>para st. add_paragraph config st para) (split_paragraphs text) ([], [], 0) of
        (chunks, current_chunk, current_tokens) \<Rightarrow>
          (let chunks = (if current_chunk \<noteq> [] then chunks @ [strip current_chunk] else chunks)
           in if chunks \<noteq> [] then chunks else [py_take (chunk_size config * 4) text]))"

text \<open>
  \<open>full_text.find(chunk, start)\<close>: the least index from \<open>start\<close> on at which \<open>chunk\<close> occurs,
  or \<open>-1\<close>; a negative \<open>start\<close> counts from the end of the text.
\<close>

definition py_find :: "string \<Rightarrow> string \<Rightarrow> int \<Rightarrow> int" where
  "py_find full sub start =
     (let s = (if start < 0 then max 0 (int (length full) + start) else start)
      in case List.find (\<lambda>i. take (length sub) (drop i full) = sub)
                [nat s ..< Suc (length full)] of
           None \<Rightarrow> - 1
         | Some i \<Rightarrow> int i)"

fun char_positions_loop ::
  "PipelineConfig \<Rightarrow> string \<Rightarrow> string list \<Rightarrow> int \<Rightarrow> (int \<times> int) list" where
  "char_positions_loop config full_text [] current_pos = []"
| "char_positions_loop config full_text (chunk # rest) current_pos =
     (let found = py_find full_text chunk current_pos;
          start = (if found = - 1 then current_pos else found);
          fin = start + int (length chunk)
      in (start, fin) #
         char_positions_loop config full_text rest
           (fin - (if chunk_overlap config > 0 then chunk_overlap config * 4 else 0)))"

definition get_char_positions :: "PipelineConfig \<Rightarrow> string \<Rightarrow> string list \<Rightarrow> (int \<times> int) list" where
  "get_char_positions config full_text chunks = char_positions_loop config full_text chunks 0"

text \<open>
  \<open>TextChunk.from_document\<close> (models/chunk.py): the list comprehension constructs the
  chunks in order and the first construction that fails raises. \<open>chunk_document\<close> passes
  token counts and positions of the same length as the chunks.
\<close>

fun from_document_loop ::
  "(string \<Rightarrow> string) \<Rightarrow> DocumentPage \<Rightarrow> int \<Rightarrow> int list \<Rightarrow> (int \<times> int) list \<Rightarrow>
   (nat \<times> string) list \<Rightarrow> py_exn + TextChunk list" where
  "from_document_loop md5 document tot token_counts char_positions [] = Inr []"
| "from_document_loop md5 document tot token_counts char_positions ((i, chunk_text) # rest) =
     (case TextChunk_init (generate_id md5 (dp_url document) i) chunk_text (dp_url document)
             (dp_title document) (int i) tot (token_counts ! i)
             (fst (char_positions ! i)) (snd (char_positions ! i))
             [''doc_type'' \<mapsto> PStr (case dp_metadata document ''doc_type'' of
                                         Some d \<Rightarrow> d | None \<Rightarrow> ''unknown''),
              ''content_hash'' \<mapsto> PStr (content_hash document)] of
        Inl e \<Rightarrow> Inl e
      | Inr c \<Rightarrow>
          (case from_document_loop md5 document tot token_counts char_positions rest of
             Inl e \<Rightarrow> Inl e
           | Inr cs \<Rightarrow> Inr (c # cs)))"

definition from_document ::
  "(string \<Rightarrow> string) \<Rightarrow> DocumentPage \<Rightarrow> string list \<Rightarrow> int list \<Rightarrow> (int \<times> int) list \<Rightarrow>
   py_exn + TextChunk list" where
  "from_document md5 document chunks token_counts char_positions =
     from_document_loop md5 document (int (length chunks)) token_counts char_positions
       (enumerate 0 chunks)"

definition chunk_document ::
  "PipelineConfig \<Rightarrow> (string \<Rightarrow> string) \<Rightarrow> DocumentPage \<Rightarrow> py_exn + TextChunk list" where
  "chunk_document config md5 document =
     (let text = extracted_text document
      in if text = [] then Inr []
         else let chunks = split_text config text
              in if chunks = [] then Inr []
                 else let char_positions = get_char_positions config text chunks;
                          token_counts = map count_tokens chunks
                      in from_document md5 document chunks token_counts char_positions)"


section \<open>Vector dimension (models/embedding.py, services/embedder.py)\<close>

lemma Embedding_init_Inr:
  "Embedding_init cid v m t r = Inr e \<Longrightarrow> length v = 1024 \<and> e = \<lparr> chunk_id = cid, vector = v, model = m, created_at = t, chunk_ref = r \<rparr>"
  by (auto simp: Embedding_init_def validate_vector_dimensions_def split: if_splits)

lemma Embedding_init_bad:
  "length v \<noteq> 1024 \<Longrightarrow> Embedding_init cid v m t r = Inl ValidationError"
  by (auto simp: Embedding_init_def validate_vector_dimensions_def)

lemma Embedding_init_Inl:
  "Embedding_init cid v m t r = Inl x \<Longrightarrow> x = ValidationError"
  by (auto simp: Embedding_init_def validate_vector_dimensions_def split: if_splits)

lemma VectorRecord_init_Inr:
  "VectorRecord_init rid v p = Inr vr \<Longrightarrow> length v = 1024 \<and> vr = \<lparr> vr_id = rid, vr_vector = v, payload = p \<rparr>"
  by (auto simp: VectorRecord_init_def validate_vector_dimensions_def validate_payload_def Let_def split: if_splits sum.splits)

lemma VectorRecord_init_bad:
  "length v \<noteq> 1024 \<Longrightarrow> VectorRecord_init rid v p = Inl ValidationError"
  by (auto simp: VectorRecord_init_def validate_vector_dimensions_def validate_payload_def Let_def split: sum.splits)

lemma build_embeddings_Inr:
  "build_embeddings m now ps = Inr es \<Longrightarrow> \<forall>e\<in>set es. length (vector e) = 1024"
proof (induction ps arbitrary: es)
  case Nil
  then show ?case by simp
next
  case (Cons p ps)
  obtain c v where p: "p = (c, v)" by (cases p)
  from Cons.prems p obtain e es' where
    e: "Embedding_init (tc_chunk_id c) v m now (Some c) = Inr e"
    and es': "build_embeddings m now ps = Inr es'" and es: "es = e # es'"
    by (auto split: sum.splits)
  from Embedding_init_Inr [OF e] have "length (vector e) = 1024" by simp
  with Cons.IH [OF es'] es show ?case by simp
qed

lemma build_embeddings_bad:
  "i < length ps \<Longrightarrow> length (snd (ps ! i)) \<noteq> 1024 \<Longrightarrow> build_embeddings m now ps = Inl ValidationError"
proof (induction ps arbitrary: i)
  case Nil
  then show ?case by simp
next
  case (Cons p ps)
  obtain c v where p: "p = (c, v)" by (cases p)
  show ?case
  proof (cases "length v = 1024")
    case False
    then show ?thesis using p by (simp add: Embedding_init_bad)
  next
    case True
    with Cons.prems p obtain j where j: "i = Suc j" by (cases i) auto
    with Cons.prems have "build_embeddings m now ps = Inl ValidationError"
      using Cons.IH [of j] by simp
    then show ?thesis using p by (auto split: sum.splits dest: Embedding_init_Inl)
  qed
qed

lemma embed_loop_Inr:
  "embed_loop api rnd m now bs chunks acc = Inr es \<Longrightarrow>
   \<forall>e\<in>set acc. length (vector e) = 1024 \<Longrightarrow> \<forall>e\<in>set es. length (vector e) = 1024"
proof (induction api rnd m now bs chunks acc rule: embed_loop.induct)
  case (1 api rnd m now bs chunks embeddings)
  show ?case
  proof (cases "bs = 0 \<or> chunks = []")
    case True
    with "1.prems" show ?thesis by (simp add: embed_loop.simps)
  next
    case False
    with "1.prems"(1) obtain vs bes where
      vs: "embed_texts api rnd (map tc_text (take bs chunks)) = Inr vs"
      and bes: "build_embeddings m now (zip (take bs chunks) vs) = Inr bes"
      and rec: "embed_loop api rnd m now bs (drop bs chunks) (embeddings @ bes) = Inr es"
      by (subst (asm) embed_loop.simps) (auto simp: Let_def split: sum.splits)
    have "\<forall>e\<in>set (embeddings @ bes). length (vector e) = 1024"
      using "1.prems"(2) build_embeddings_Inr [OF bes] by auto
    from "1.IH" [OF False refl refl vs bes rec this] show ?thesis .
  qed
qed


lemma embed_loop_bad:
  "0 < bs \<Longrightarrow>
   embed_texts api rnd (map tc_text (take bs (drop (k * bs) chunks))) = Inr vs \<Longrightarrow>
   i < length (take bs (drop (k * bs) chunks)) \<Longrightarrow> i < length vs \<Longrightarrow>
   length (vs ! i) \<noteq> 1024 \<Longrightarrow>
   isl (embed_loop api rnd m now bs chunks acc)"
proof (induction k arbitrary: chunks acc)
  case 0
  then have ne: "chunks \<noteq> []" by auto
  have "build_embeddings m now (zip (take bs chunks) vs) = Inl ValidationError"
    using 0 by (intro build_embeddings_bad [of i]) auto
  then show ?case using 0 ne
    by (subst embed_loop.simps) (simp add: Let_def)
next
  case (Suc k)
  then have ne: "chunks \<noteq> []" by auto
  have d: "drop (k * bs) (drop bs chunks) = drop (Suc k * bs) chunks"
    by (simp add: add.commute)
  have rec: "isl (embed_loop api rnd m now bs (drop bs chunks) acc')" for acc'
  proof (rule Suc.IH)
    show "0 < bs" by (rule Suc.prems(1))
    show "embed_texts api rnd (map tc_text (take bs (drop (k * bs) (drop bs chunks)))) = Inr vs"
      using Suc.prems(2) by (simp only: d)
    show "i < length (take bs (drop (k * bs) (drop bs chunks)))"
      using Suc.prems(3) by (simp only: d)
    show "i < length vs" by (rule Suc.prems(4))
    show "length (vs ! i) \<noteq> 1024" by (rule Suc.prems(5))
  qed
  show ?case using ne Suc.prems(1) rec
    by (subst embed_loop.simps) (simp add: Let_def split: sum.splits)
qed

text \<open>
  Claim C6. An \<open>Embedding\<close> or a \<open>VectorRecord\<close> that is constructed has a vector of
  exactly 1024 entries, and a vector of any other length is rejected with a validation
  error. Every embedding \<open>embed_chunks\<close> returns has 1024 entries; and when the answer
  to some batch holds, at a position that is paired with a chunk, a vector of another
  length, \<open>embed_chunks\<close> raises instead of returning.
\<close>

theorem vector_dimension_enforced:
  "(Embedding_init cid v m t r = Inr e \<longrightarrow> length (vector e) = 1024) \<and>
   (VectorRecord_init rid v p = Inr vr \<longrightarrow> length (vr_vector vr) = 1024) \<and>
   (length w \<noteq> 1024 \<longrightarrow>
      Embedding_init cid w m t r = Inl ValidationError \<and>
      VectorRecord_init rid w p = Inl ValidationError) \<and>
   (embed_chunks config api rnd now chunks = Inr es \<longrightarrow>
      (\<forall>e\<in>set es. length (vector e) = 1024)) \<and>
   (0 < cohere_batch_size config \<and>
    batch = take (nat (cohere_batch_size config)) (drop (k * nat (cohere_batch_size config)) chunks') \<and>
    embed_texts api rnd (map tc_text batch) = Inr vs \<and>
    i < length batch \<and> i < length vs \<and> length (vs ! i) \<noteq> 1024 \<longrightarrow>
      isl (embed_chunks config api rnd now chunks'))"
proof (intro conjI impI)
  assume "Embedding_init cid v m t r = Inr e"
  from Embedding_init_Inr [OF this] show "length (vector e) = 1024" by simp
next
  assume "VectorRecord_init rid v p = Inr vr"
  from VectorRecord_init_Inr [OF this] show "length (vr_vector vr) = 1024" by simp
next
  assume "length w \<noteq> 1024"
  then show "Embedding_init cid w m t r = Inl ValidationError" by (rule Embedding_init_bad)
next
  assume "length w \<noteq> 1024"
  then show "VectorRecord_init rid w p = Inl ValidationError" by (rule VectorRecord_init_bad)
next
  assume "embed_chunks config api rnd now chunks = Inr es"
  then show "\<forall>e\<in>set es. length (vector e) = 1024"
    by (auto simp: embed_chunks_def split: if_splits dest: embed_loop_Inr)
next
  assume a: "0 < cohere_batch_size config \<and>
    batch = take (nat (cohere_batch_size config)) (drop (k * nat (cohere_batch_size config)) chunks') \<and>
    embed_texts api rnd (map tc_text batch) = Inr vs \<and>
    i < length batch \<and> i < length vs \<and> length (vs ! i) \<noteq> 1024"
  then have "isl (embed_loop api rnd (cohere_model config) now (nat (cohere_batch_size config)) chunks' [])"
    by (intro embed_loop_bad [of _ _ _ k _ vs i]) auto
  with a show "isl (embed_chunks config api rnd now chunks')"
    by (simp add: embed_chunks_def)
qed

text \<open>A run of \<open>embed_chunks\<close> on one chunk, with a provider that answers one text
  with 1023 numbers and every other text with 1024.\<close>

definition example_chunk :: "string \<Rightarrow> string \<Rightarrow> TextChunk" where
  "example_chunk cid txt =
     \<lparr> tc_chunk_id = cid, tc_text = txt, source_url = ''https://example.com/docs/a'',
       source_title = ''A'', chunk_index = 0, total_chunks = 1, token_count = 3,
       char_start = 0, char_end = 15, tc_metadata = Map.empty \<rparr>"

definition example_api :: "string list \<Rightarrow> nat \<Rightarrow> cohere_reply" where
  "example_api texts attempt =
     HttpReply 200 (RawList (map (\<lambda>t. if t = ''a short text'' then replicate 1023 0
                                        else replicate 1024 0) texts))"

definition example_config :: PipelineConfig where
  "example_config =
     \<lparr> docusaurus_url = ''https://example.com/'', sitemap_url = ''https://example.com/sitemap.xml'',
       cohere_model = ''embed-english-v3.0'', cohere_batch_size = 96, chunk_size = 512,
       chunk_overlap = 50 \<rparr>"

definition example_payload :: "string \<rightharpoonup> pval" where
  "example_payload =
     [''text'' \<mapsto> PStr ''a longer text'', ''url'' \<mapsto> PStr ''https://example.com/docs/a'',
      ''title'' \<mapsto> PStr ''A'', ''chunk_index'' \<mapsto> PInt 0, ''total_chunks'' \<mapsto> PInt 1,
      ''token_count'' \<mapsto> PInt 3, ''model'' \<mapsto> PStr ''m'', ''created_at'' \<mapsto> PStr ''t'']"

lemma example_embed_texts:
  "embed_texts example_api rnd [t] =
     Inr [if t = ''a short text'' then replicate 1023 0 else replicate 1024 0]"
  by (simp add: embed_texts_def retry_with_exponential_backoff_def embed_request_def
      example_api_def upt_rec [of 0])

theorem vector_dimension_enforced_witness:
  "Embedding_init ''c_0'' (replicate 1024 0) ''m'' ''t'' None
     = Inr \<lparr> chunk_id = ''c_0'', vector = replicate 1024 0, model = ''m'', created_at = ''t'',
             chunk_ref = None \<rparr> \<and>
   length (replicate 1024 (0::real)) = 1024 \<and>
   Embedding_init ''c_0'' (replicate 1023 0) ''m'' ''t'' None = Inl ValidationError \<and>
   VectorRecord_init ''c_0'' (replicate 1024 0) example_payload
     = Inr \<lparr> vr_id = ''c_0'', vr_vector = replicate 1024 0, payload = example_payload \<rparr> \<and>
   VectorRecord_init ''c_0'' (replicate 1023 0) example_payload = Inl ValidationError \<and>
   embed_chunks example_config example_api (\<lambda>a. 0) ''t'' [example_chunk ''c_0'' ''a longer text'']
     = Inr [\<lparr> chunk_id = ''c_0'', vector = replicate 1024 0, model = ''embed-english-v3.0'',
              created_at = ''t'', chunk_ref = Some (example_chunk ''c_0'' ''a longer text'') \<rparr>] \<and>
   isl (embed_chunks example_config example_api (\<lambda>a. 0) ''t'' [example_chunk ''c_1'' ''a short text''])"
proof -
  let ?good = "example_chunk ''c_0'' ''a longer text''"
  let ?bad = "example_chunk ''c_1'' ''a short text''"
  let ?e = "\<lparr> chunk_id = ''c_0'', vector = replicate 1024 (0::real), model = ''m'',
              created_at = ''t'', chunk_ref = None \<rparr>"
  let ?vr = "\<lparr> vr_id = ''c_0'', vr_vector = replicate 1024 (0::real), payload = example_payload \<rparr>"
  have e: "Embedding_init ''c_0'' (replicate 1024 0) ''m'' ''t'' None = Inr ?e"
    by (simp add: Embedding_init_def validate_vector_dimensions_def)
  have vr: "VectorRecord_init ''c_0'' (replicate 1024 0) example_payload = Inr ?vr"
    by (simp add: VectorRecord_init_def validate_vector_dimensions_def validate_payload_def
        REQUIRED_PAYLOAD_FIELDS_def example_payload_def)
  have run: "embed_chunks example_config example_api (\<lambda>a. 0) ''t'' [?good]
     = Inr [\<lparr> chunk_id = ''c_0'', vector = replicate 1024 0, model = ''embed-english-v3.0'',
              created_at = ''t'', chunk_ref = Some ?good \<rparr>]"
    by (simp add: embed_chunks_def example_config_def embed_loop.simps example_embed_texts
        example_chunk_def Embedding_init_def validate_vector_dimensions_def)
  have bad: "0 < cohere_batch_size example_config \<and>
    [?bad] = take (nat (cohere_batch_size example_config))
               (drop (0 * nat (cohere_batch_size example_config)) [?bad]) \<and>
    embed_texts example_api (\<lambda>a. 0) (map tc_text [?bad]) = Inr [replicate 1023 0] \<and>
    0 < length [?bad] \<and> 0 < length [replicate 1023 (0::real)] \<and>
    length ([replicate 1023 (0::real)] ! 0) \<noteq> 1024"
    by (simp add: example_config_def example_embed_texts example_chunk_def)
  have w: "length (replicate 1023 (0::real)) \<noteq> 1024" by simp
  from vector_dimension_enforced [where cid = "''c_0''" and v = "replicate 1024 0"
      and m = "''m''" and t = "''t''" and r = None and e = ?e and rid = "''c_0''"
      and p = example_payload and vr = ?vr and w = "replicate 1023 0"
      and config = example_config and api = example_api and rnd = "\<lambda>a. 0" and now = "''t''"
      and chunks = "[?good]" and chunks' = "[?bad]" and k = 0 and batch = "[?bad]"
      and vs = "[replicate 1023 0]" and i = 0]
    e vr run bad w
  show ?thesis by simp
qed

section \<open>Embeddings loaded from JSONL (services/embedder.py, models/embedding.py)\<close>

lemma load_lines_no_chunk_ref:
  "load_lines now limit lines acc = Inr es \<Longrightarrow> \<forall>e\<in>set acc. chunk_ref e = None \<Longrightarrow>
   \<forall>e\<in>set es. chunk_ref e = None"
proof (induction lines arbitrary: acc)
  case Nil
  then show ?case by simp
next
  case (Cons line rest)
  show ?case
  proof (cases "case limit of None \<Rightarrow> False | Some n \<Rightarrow> n \<noteq> 0 \<and> int (length acc) \<ge> n")
    case True
    with Cons.prems show ?thesis by simp
  next
    case False
    with Cons.prems(1) obtain cid v m t e where
      e: "Embedding_init cid v m t None = Inr e"
      and rec: "load_lines now limit rest (acc @ [e]) = Inr es"
      by (fastforce split: json_line.splits option.splits sum.splits)
    from e have "chunk_ref e = None"
      by (auto simp: Embedding_init_def validate_vector_dimensions_def split: if_splits)
    with Cons.prems(2) have "\<forall>x\<in>set (acc @ [e]). chunk_ref x = None" by simp
    from Cons.IH [OF rec this] show ?thesis .
  qed
qed

lemma to_vector_records_no_chunk_ref:
  "es \<noteq> [] \<Longrightarrow> chunk_ref (hd es) = None \<Longrightarrow> to_vector_records es = Inl ValueError"
  by (cases es) (simp_all add: to_vector_record_def)

text \<open>
  Claim C10. \<open>to_vector_record\<close> raises \<open>ValueError\<close> for every embedding without a
  \<open>chunk_ref\<close>. Every embedding that \<open>load_embeddings_from_jsonl\<close> of the embedder module
  returns has no \<open>chunk_ref\<close>, so it cannot be converted to a \<open>VectorRecord\<close>, and
  \<open>upload_embeddings\<close> on a non-empty list of them raises and leaves the collection as it was.
\<close>

theorem loaded_embeddings_not_convertible:
  "(chunk_ref e = None \<longrightarrow> to_vector_record e = Inl ValueError) \<and>
   (load_embeddings_from_jsonl now input_file limit = Inr es \<longrightarrow>
      (\<forall>e'\<in>set es. chunk_ref e' = None \<and> to_vector_record e' = Inl ValueError) \<and>
      (es \<noteq> [] \<longrightarrow>
         upload_embeddings self fails rnd str_of es coll = (Inl ValueError, coll)))"
proof (intro conjI impI)
  assume "chunk_ref e = None"
  then show "to_vector_record e = Inl ValueError" by (simp add: to_vector_record_def)
next
  assume l: "load_embeddings_from_jsonl now input_file limit = Inr es"
  then have none: "\<forall>e'\<in>set es. chunk_ref e' = None"
    by (auto simp: load_embeddings_from_jsonl_def split: option.splits
        dest: load_lines_no_chunk_ref)
  then show "\<forall>e'\<in>set es. chunk_ref e' = None \<and> to_vector_record e' = Inl ValueError"
    by (simp add: to_vector_record_def)
  assume ne: "es \<noteq> []"
  with none have "chunk_ref (hd es) = None" by simp
  with ne have "to_vector_records es = Inl ValueError"
    by (rule to_vector_records_no_chunk_ref)
  then show "upload_embeddings self fails rnd str_of es coll = (Inl ValueError, coll)"
    by (simp add: upload_embeddings_def)
qed

text \<open>A file of one line, loaded and then offered for upload.\<close>

definition example_line :: json_line where
  "example_line =
     JsonObject \<lparr> jr_chunk_id = Some ''0123456789abcdef_0'', jr_vector = Some (replicate 1024 0),
                  jr_model = Some ''embed-english-v3.0'',
                  jr_created_at = Some ''2025-01-01T00:00:00'' \<rparr>"

definition example_loaded :: Embedding where
  "example_loaded =
     \<lparr> chunk_id = ''0123456789abcdef_0'', vector = replicate 1024 0,
       model = ''embed-english-v3.0'', created_at = ''2025-01-01T00:00:00'', chunk_ref = None \<rparr>"

theorem loaded_embeddings_not_convertible_witness:
  "load_embeddings_from_jsonl ''2025-06-01T00:00:00'' (Some [example_line]) None
     = Inr [example_loaded] \<and>
   chunk_ref example_loaded = None \<and>
   to_vector_record example_loaded = Inl ValueError \<and>
   upload_embeddings QdrantVectorStore_init (\<lambda>points attempt. False) (\<lambda>a. 0) (\<lambda>e. ''error'')
     [example_loaded] Map.empty = (Inl ValueError, Map.empty)"
proof -
  have l: "load_embeddings_from_jsonl ''2025-06-01T00:00:00'' (Some [example_line]) None
     = Inr [example_loaded]"
    by (simp add: load_embeddings_from_jsonl_def example_line_def example_loaded_def
        Embedding_init_def validate_vector_dimensions_def)
  have c: "chunk_ref example_loaded = None" by (simp add: example_loaded_def)
  from loaded_embeddings_not_convertible [where e = example_loaded
      and now = "''2025-06-01T00:00:00''" and input_file = "Some [example_line]"
      and limit = None and es = "[example_loaded]" and self = QdrantVectorStore_init
      and fails = "\<lambda>points attempt. False" and rnd = "\<lambda>a. 0" and str_of = "\<lambda>e. ''error''"
      and coll = Map.empty] l c
  show ?thesis by simp
qed

section \<open>Store identifiers (services/vector_store.py)\<close>

lemma batch_points_ids: "map pt_id (batch_points rs) = map IntId [0 ..< length rs]"
proof (rule nth_equalityI)
  show "length (map pt_id (batch_points rs)) = length (map IntId [0 ..< length rs])"
    by (simp add: batch_points_def)
next
  fix i assume "i < length (map pt_id (batch_points rs))"
  then have i: "i < length rs" by (simp add: batch_points_def)
  then show "map pt_id (batch_points rs) ! i = map IntId [0 ..< length rs] ! i"
    by (simp add: batch_points_def nth_enumerate_eq Let_def)
qed

lemma dom_upsert: "dom (upsert ps c) = dom c \<union> pt_id ` set ps"
  unfolding upsert_def by (induction ps arbitrary: c) auto

lemma dom_upsert_batch: "dom (upsert (batch_points rs) c) = dom c \<union> IntId ` {0 ..< length rs}"
proof -
  have "pt_id ` set (batch_points rs) = set (map pt_id (batch_points rs))" by simp
  also have "\<dots> = IntId ` {0 ..< length rs}" by (simp only: batch_points_ids) simp
  finally show ?thesis by (simp add: dom_upsert)
qed

lemma upload_batch_ok:
  "upload_batch (\<lambda>points attempt. False) rnd rs c = (Inr (), upsert (batch_points rs) c)"
  by (simp add: upload_batch_def retry_with_exponential_backoff_def upt_rec [of 0])

text \<open>
  One call of \<open>upload_embeddings\<close> with 101 embeddings whose chunk identifiers differ, on
  an empty collection, with a store that accepts every upsert.
\<close>

definition numbered_chunk :: "nat \<Rightarrow> TextChunk" where
  "numbered_chunk i =
     \<lparr> tc_chunk_id = ''0123456789abcdef_'' @ str_nat i, tc_text = ''some chunk text'',
       source_url = ''https://example.com/docs/a'', source_title = ''A'',
       chunk_index = int i, total_chunks = 101, token_count = 3,
       char_start = 0, char_end = 15, tc_metadata = Map.empty \<rparr>"

definition numbered_embedding :: "nat \<Rightarrow> Embedding" where
  "numbered_embedding i =
     \<lparr> chunk_id = ''0123456789abcdef_'' @ str_nat i, vector = replicate 1024 0,
       model = ''embed-english-v3.0'', created_at = ''2025-01-01T00:00:00'',
       chunk_ref = Some (numbered_chunk i) \<rparr>"

definition numbered_payload :: "nat \<Rightarrow> (string \<rightharpoonup> pval)" where
  "numbered_payload i =
     [''text'' \<mapsto> PStr ''some chunk text'',
      ''url'' \<mapsto> PStr ''https://example.com/docs/a'',
      ''title'' \<mapsto> PStr ''A'',
      ''chunk_index'' \<mapsto> PInt (int i),
      ''total_chunks'' \<mapsto> PInt 101,
      ''token_count'' \<mapsto> PInt 3,
      ''model'' \<mapsto> PStr ''embed-english-v3.0'',
      ''created_at'' \<mapsto> PStr ''2025-01-01T00:00:00'']"

definition numbered_record :: "nat \<Rightarrow> VectorRecord" where
  "numbered_record i =
     \<lparr> vr_id = ''0123456789abcdef_'' @ str_nat i, vr_vector = replicate 1024 0,
       payload = numbered_payload i \<rparr>"

lemma numbered_to_vector_record:
  "to_vector_record (numbered_embedding i) = Inr (numbered_record i)"
  by (simp add: to_vector_record_def numbered_embedding_def numbered_chunk_def
      numbered_record_def numbered_payload_def VectorRecord_init_def validate_payload_def
      validate_vector_dimensions_def REQUIRED_PAYLOAD_FIELDS_def)

lemma numbered_to_vector_records:
  "to_vector_records (map numbered_embedding xs) = Inr (map numbered_record xs)"
  by (induction xs) (simp_all add: numbered_to_vector_record)

lemma upload_loop_two_batches:
  "upload_loop (\<lambda>points attempt. False) rnd str_of 100 (map numbered_record [0 ..< 101])
     [] Map.empty Map.empty =
   (map (vr_id \<circ> numbered_record) [0 ..< 101], Map.empty,
    upsert (batch_points [numbered_record 100])
      (upsert (batch_points (map numbered_record [0 ..< 100])) Map.empty))"
proof -
  have t: "take 100 (map numbered_record [0 ..< 101]) = map numbered_record [0 ..< 100]"
    by (simp add: take_map)
  have d: "drop 100 (map numbered_record [0 ..< 101]) = [numbered_record 100]"
    by (simp add: drop_map)
  have u: "[0 ..< 101] = [0 ..< 100] @ [100]"
    using upt_Suc_append [of 0 100] by simp
  show ?thesis
    apply (subst upload_loop.simps)
    apply (simp only: t d Let_def upload_batch_ok)
    apply (subst upload_loop.simps)
    apply (simp add: upload_batch_ok del: upt_Suc)
    apply (subst upload_loop.simps)
    apply (simp add: u del: upt_Suc)
    done
qed

text \<open>
  Claim C1 says that the store identifier of a record is its \<open>chunk_id\<close> or derived from
  it, so that records of different batches never share one. In the code the identifier is
  the position in the batch: with 101 embeddings the call reports all 101 chunk identifiers
  as uploaded, yet the collection ends with the 100 identifiers 0 to 99, and identifier 0
  holds the record of the second batch (chunk 100), which has overwritten chunk 0.
\<close>

theorem upload_ids_collide_between_batches:
  "fst (upload_embeddings QdrantVectorStore_init (\<lambda>points attempt. False) rnd str_of
          (map numbered_embedding [0 ..< 101]) Map.empty)
     = Inr (map (chunk_id \<circ> numbered_embedding) [0 ..< 101], Map.empty) \<and>
   dom (snd (upload_embeddings QdrantVectorStore_init (\<lambda>points attempt. False) rnd str_of
          (map numbered_embedding [0 ..< 101]) Map.empty))
     = IntId ` {0 ..< 100} \<and>
   snd (upload_embeddings QdrantVectorStore_init (\<lambda>points attempt. False) rnd str_of
          (map numbered_embedding [0 ..< 101]) Map.empty) (IntId 0)
     = Some \<lparr> pt_id = IntId 0, pt_vector = replicate 1024 0,
              pt_payload = numbered_payload 100 \<rparr> \<and>
   chunk_id (numbered_embedding 0) = ''0123456789abcdef_0'' \<and>
   chunk_id (numbered_embedding 100) = ''0123456789abcdef_100''"
proof -
  let ?c = "upsert (batch_points [numbered_record 100])
      (upsert (batch_points (map numbered_record [0 ..< 100])) Map.empty)"
  have run: "upload_embeddings QdrantVectorStore_init (\<lambda>points attempt. False) rnd str_of
          (map numbered_embedding [0 ..< 101]) Map.empty
     = (Inr (map (vr_id \<circ> numbered_record) [0 ..< 101], Map.empty), ?c)"
    by (simp only: upload_embeddings_def numbered_to_vector_records sum.case
        QdrantVectorStore_init_def QdrantVectorStore.simps upload_loop_two_batches) simp
  have ids: "map (vr_id \<circ> numbered_record) [0 ..< 101] = map (chunk_id \<circ> numbered_embedding) [0 ..< 101]"
    by (simp add: numbered_record_def numbered_embedding_def del: upt_Suc)
  have d: "dom ?c = IntId ` {0 ..< 100}"
    by (simp only: dom_upsert_batch) auto
  have p: "?c (IntId 0) = Some \<lparr> pt_id = IntId 0, pt_vector = replicate 1024 0,
              pt_payload = numbered_payload 100 \<rparr>"
    by (simp add: upsert_def batch_points_def to_qdrant_point_def numbered_record_def)
  have s0: "str_nat 0 = ''0''" by (simp add: str_nat.simps digit_char_def)
  have s100: "str_nat 100 = ''100''" by (simp add: str_nat.simps digit_char_def)
  show ?thesis
    by (simp only: run fst_conv snd_conv ids d p) (simp add: numbered_embedding_def s0 s100)
qed

section \<open>Retries of a page fetch (services/crawler.py, utils/retry.py)\<close>

lemma upt_4: "[0 ..< 4] = [0, 1, 2, 3::nat]"
  by (simp add: numeral_eq_Suc)

lemma fetch_page_all_fail:
  assumes "\<forall>a\<le>3. \<exists>e. fetch_once (web url a) = Inl e \<and> client_or_timeout e"
  shows "fetch_page web rnd url =
           (fetch_once (web url 3),
            [1 + rnd 0 / 10, 2 + 2 * rnd 1 / 10, 4 + 4 * rnd 2 / 10])"
proof -
  from assms have "\<exists>e. fetch_once (web url 0) = Inl e \<and> client_or_timeout e"
    and "\<exists>e. fetch_once (web url 1) = Inl e \<and> client_or_timeout e"
    and "\<exists>e. fetch_once (web url 2) = Inl e \<and> client_or_timeout e"
    and "\<exists>e. fetch_once (web url 3) = Inl e \<and> client_or_timeout e"
    by simp_all
  then obtain e0 e1 e2 e3 where
    "fetch_once (web url 0) = Inl e0" "client_or_timeout e0"
    "fetch_once (web url 1) = Inl e1" "client_or_timeout e1"
    "fetch_once (web url 2) = Inl e2" "client_or_timeout e2"
    "fetch_once (web url 3) = Inl e3" "client_or_timeout e3"
    by blast
  then show ?thesis
    by (simp add: fetch_page_def retry_with_exponential_backoff_def upt_4 backoff_delay_def
        Let_def)
qed

lemma fetch_once_fails:
  "(\<exists>status body. r = Response status body \<and> 400 \<le> status) \<or> r = ConnectionFailed \<or> r = TimedOut
   \<Longrightarrow> \<exists>e. fetch_once r = Inl e \<and> client_or_timeout e"
  by (auto simp: fetch_once_def)

text \<open>
  Claim C5, amended. \<open>fetch_page\<close> treats a response with a status of 400 or more (4xx
  and 5xx alike) as it treats a transport error or a timeout, since \<open>ClientResponseError\<close>
  is a \<open>ClientError\<close>: when each of the four attempts meets such a response, a transport
  failure or a timeout, the call raises the error of the fourth attempt after sleeping
  1 s, 2 s and 4 s (each plus its jitter), and only then is the URL marked failed. When a
  response with a status of 400 or more is followed by a response below 400, the page is
  returned after one sleep and the URL is marked completed.
\<close>

theorem fetch_page_retries_client_errors:
  "((\<forall>a\<le>3. (\<exists>status body. web url a = Response status body \<and> 400 \<le> status)
            \<or> web url a = ConnectionFailed \<or> web url a = TimedOut) \<longrightarrow>
      fst (fetch_page web rnd url) = fetch_once (web url 3) \<and>
      isl (fst (fetch_page web rnd url)) \<and>
      snd (fetch_page web rnd url) = [1 + rnd 0 / 10, 2 + 2 * rnd 1 / 10, 4 + 4 * rnd 2 / 10] \<and>
      snd (crawl_tasks web rnd str_of now [url] st)
        = mark_failed now st url (str_of (projl (fetch_once (web url 3))))) \<and>
   ((400 \<le> status0 \<and> web' url 0 = Response status0 body0 \<and>
     status1 < 400 \<and> web' url 1 = Response status1 html) \<longrightarrow>
      fetch_page web' rnd url = (Inr html, [1 + rnd 0 / 10]) \<and>
      snd (crawl_tasks web' rnd str_of now [url] st) = mark_completed now st url)"
proof (intro conjI impI)
  assume a: "\<forall>a\<le>3. (\<exists>status body. web url a = Response status body \<and> 400 \<le> status)
            \<or> web url a = ConnectionFailed \<or> web url a = TimedOut"
  have "\<forall>a\<le>3. \<exists>e. fetch_once (web url a) = Inl e \<and> client_or_timeout e"
  proof (intro allI impI)
    fix a :: nat assume "a \<le> 3"
    with a have "(\<exists>status body. web url a = Response status body \<and> 400 \<le> status)
        \<or> web url a = ConnectionFailed \<or> web url a = TimedOut" by blast
    then show "\<exists>e. fetch_once (web url a) = Inl e \<and> client_or_timeout e"
      by (rule fetch_once_fails)
  qed
  then have fp: "fetch_page web rnd url =
           (fetch_once (web url 3), [1 + rnd 0 / 10, 2 + 2 * rnd 1 / 10, 4 + 4 * rnd 2 / 10])"
    and l: "\<exists>e. fetch_once (web url 3) = Inl e"
    by (auto simp: fetch_page_all_fail)
  from fp show "fst (fetch_page web rnd url) = fetch_once (web url 3)" by simp
  from fp l show "isl (fst (fetch_page web rnd url))" by auto
  from fp show "snd (fetch_page web rnd url) = [1 + rnd 0 / 10, 2 + 2 * rnd 1 / 10, 4 + 4 * rnd 2 / 10]"
    by simp
  from fp l show "snd (crawl_tasks web rnd str_of now [url] st)
        = mark_failed now st url (str_of (projl (fetch_once (web url 3))))"
    by auto
next
  assume b: "400 \<le> status0 \<and> web' url 0 = Response status0 body0 \<and>
     status1 < 400 \<and> web' url 1 = Response status1 html"
  then have fp: "fetch_page web' rnd url = (Inr html, [1 + rnd 0 / 10])"
    by (simp add: fetch_page_def retry_with_exponential_backoff_def upt_4 fetch_once_def
        backoff_delay_def Let_def)
  then show "fetch_page web' rnd url = (Inr html, [1 + rnd 0 / 10])" .
  from fp show "snd (crawl_tasks web' rnd str_of now [url] st) = mark_completed now st url"
    by simp
qed

text \<open>Two servers: one answers 404 every time, one answers 404 once and then 200.\<close>

definition always_404 :: web where
  "always_404 url attempt = Response 404 ''Not Found''"

definition recovers_after_404 :: web where
  "recovers_after_404 url attempt =
     (if attempt = 0 then Response 404 ''Not Found'' else Response 200 ''<html></html>'')"

text \<open>
  Claim C5 as stated fails: on a server that always answers 404, \<open>fetch_page\<close> makes
  three retries (four attempts) before it raises.
\<close>

theorem fetch_page_retries_404:
  "fetch_page always_404 (\<lambda>a. 0) ''https://example.com/docs/missing''
     = (Inl (ClientResponseError 404), [1, 2, 4])"
  by (simp add: fetch_page_def retry_with_exponential_backoff_def upt_4 fetch_once_def
      always_404_def backoff_delay_def Let_def)

theorem fetch_page_retries_client_errors_witness:
  "fetch_page always_404 (\<lambda>a. 0) ''https://example.com/docs/missing''
     = (Inl (ClientResponseError 404), [1, 2, 4]) \<and>
   snd (crawl_tasks always_404 (\<lambda>a. 0) (\<lambda>e. ''error'') ''t'' [''https://example.com/docs/missing'']
          (CrawlState_init ''t''))
     = mark_failed ''t'' (CrawlState_init ''t'') ''https://example.com/docs/missing'' ''error'' \<and>
   fetch_page recovers_after_404 (\<lambda>a. 0) ''https://example.com/docs/missing''
     = (Inr ''<html></html>'', [1]) \<and>
   snd (crawl_tasks recovers_after_404 (\<lambda>a. 0) (\<lambda>e. ''error'') ''t''
          [''https://example.com/docs/missing''] (CrawlState_init ''t''))
     = mark_completed ''t'' (CrawlState_init ''t'') ''https://example.com/docs/missing''"
proof -
  let ?u = "''https://example.com/docs/missing''"
  have a: "\<forall>a\<le>3. (\<exists>status body. always_404 ?u a = Response status body \<and> 400 \<le> status)
            \<or> always_404 ?u a = ConnectionFailed \<or> always_404 ?u a = TimedOut"
    by (simp add: always_404_def)
  have b: "(400::nat) \<le> 404 \<and>
     recovers_after_404 ?u 0 = Response 404 ''Not Found'' \<and>
     (200::nat) < 400 \<and> recovers_after_404 ?u 1 = Response 200 ''<html></html>''"
    by (simp add: recovers_after_404_def)
  have f: "fetch_once (always_404 ?u 3) = Inl (ClientResponseError 404)"
    by (simp add: fetch_once_def always_404_def)
  from fetch_page_retries_client_errors [where web = always_404 and url = ?u
      and rnd = "\<lambda>a. 0" and str_of = "\<lambda>e. ''error''" and now = "''t''"
      and st = "CrawlState_init ''t''" and web' = recovers_after_404
      and ?status0.0 = 404 and ?body0.0 = "''Not Found''" and ?status1.0 = 200
      and html = "''<html></html>''"] a b f
  show ?thesis
    by (simp add: prod_eq_iff)
qed

section \<open>Resuming a crawl (services/crawler.py)\<close>

definition resumed_state :: CrawlState where
  "resumed_state =
     \<lparr> urls_discovered = [''https://example.com/docs/a'', ''https://example.com/docs/b''],
       urls_completed = [''https://example.com/docs/a''],
       urls_failed = [''https://example.com/docs/b'' \<mapsto> ''500, message=Server Error''],
       last_updated = ''2025-01-01T00:00:00'', total_pages = 2, completed_pages = 1 \<rparr>"

definition all_ok :: web where
  "all_ok url attempt = Response 200 ''<html></html>''"

definition no_lxml :: lxml where
  "no_lxml = \<lparr> fromstring = (\<lambda>s. Inl XMLSyntaxError),
               find_descendant_loc = (\<lambda>e. Inl ElementPathSyntaxError) \<rparr>"

lemma fetch_page_all_ok: "fst (fetch_page all_ok rnd url) = Inr ''<html></html>''"
  by (simp add: fetch_page_def retry_with_exponential_backoff_def fetch_once_def all_ok_def
      upt_rec [of 0])

text \<open>
  Claim C3 says that a run with \<open>resume\<close> fetches the discovered URLs minus the completed
  and minus the failed ones. \<open>crawl_all\<close> filters with \<open>is_completed\<close> only: with a state file
  that records \<open>/docs/a\<close> as completed and \<open>/docs/b\<close> as failed, the resumed run calls
  \<open>fetch_page\<close> for \<open>/docs/b\<close> again (and here completes it), while \<open>get_pending_urls\<close> of
  the same state, which leaves out the failed URLs, is empty.
\<close>

theorem resume_fetches_failed_url_again:
  "(case crawl_all config no_lxml all_ok rnd str_of ''2025-06-01T00:00:00''
           (Some resumed_state) (CrawlState_init ''2025-06-01T00:00:00'')
           (Some [''https://example.com/docs/a'', ''https://example.com/docs/b'']) None True of
      Inl e \<Rightarrow> None
    | Inr r \<Rightarrow> Some (fetched r, completed r))
     = Some ([''https://example.com/docs/b''], [''https://example.com/docs/b'']) \<and>
   urls_failed resumed_state ''https://example.com/docs/b'' = Some ''500, message=Server Error'' \<and>
   get_pending_urls resumed_state = []"
  by (simp add: crawl_all_def resumed_state_def is_completed_def get_pending_urls_def
      fetch_page_all_ok mark_completed_def Let_def)

section \<open>Sitemap indexes (services/crawler.py)\<close>

lemma retry_first_attempt:
  "func 0 = Inr v \<Longrightarrow>
   fst (retry_with_exponential_backoff func max_retries base_delay max_delay jitter exceptions rnd)
     = Inr v"
  by (simp add: retry_with_exponential_backoff_def upt_rec [of 0])

lemma fetch_once_ok: "status < 400 \<Longrightarrow> fetch_once (Response status body) = Inr body"
  by (simp add: fetch_once_def)

text \<open>
  \<open>url_elem.find(".//*[local-name() = 'loc']")\<close> as lxml evaluates it. \<open>find\<close> does not go
  through XPath but through ElementPath, whose predicates are \<open>[tag]\<close>, \<open>[@attr]\<close>,
  \<open>[@attr='v']\<close>, \<open>[tag='v']\<close>, \<open>[.='v']\<close>, \<open>[n]\<close> and \<open>[last()]\<close>. The predicate
  \<open>[local-name() = 'loc']\<close> is none of these, and \<open>find\<close> raises
  \<open>SyntaxError("invalid predicate")\<close> for every element it is called on.
\<close>

definition elementpath_find :: "xml \<Rightarrow> py_exn + xml option" where
  "elementpath_find url_elem = Inl ElementPathSyntaxError"

lemma nested_locs_elementpath:
  "find_descendant_loc lib = elementpath_find \<Longrightarrow>
   nested_locs lib us = (if us = [] then Inr [] else Inl ElementPathSyntaxError)"
  by (cases us) (simp_all add: elementpath_find_def)

lemma fetch_nested_sitemap_elementpath:
  "find_descendant_loc lib = elementpath_find \<Longrightarrow> fetch_nested_sitemap lib web rnd url = []"
  by (simp add: fetch_nested_sitemap_def nested_locs_elementpath split: sum.splits)

text \<open>
  A library for the example: \<open>fromstring\<close> looks the text up in a table of parsed
  documents. A site answers 200 with the listed body, and 404 elsewhere.
\<close>

definition table_lxml :: "(string \<times> xml) list \<Rightarrow> lxml" where
  "table_lxml docs =
     \<lparr> fromstring = (\<lambda>s. case map_of docs s of Some t \<Rightarrow> Inr t | None \<Rightarrow> Inl XMLSyntaxError),
       find_descendant_loc = elementpath_find \<rparr>"

definition table_web :: "(string \<times> string) list \<Rightarrow> web" where
  "table_web pages url attempt =
     (case map_of pages url of Some body \<Rightarrow> Response 200 body | None \<Rightarrow> Response 404 [])"

definition sitemap_elem :: "string \<Rightarrow> xml" where
  "sitemap_elem l =
     Element ''{http://www.sitemaps.org/schemas/sitemap/0.9}sitemap'' None
       [Element ''{http://www.sitemaps.org/schemas/sitemap/0.9}loc'' (Some l) []]"

definition url_elem :: "string \<Rightarrow> xml" where
  "url_elem l =
     Element ''{http://www.sitemaps.org/schemas/sitemap/0.9}url'' None
       [Element ''{http://www.sitemaps.org/schemas/sitemap/0.9}loc'' (Some l) []]"

definition sitemapindex :: "string list \<Rightarrow> xml" where
  "sitemapindex ls =
     Element ''{http://www.sitemaps.org/schemas/sitemap/0.9}sitemapindex'' None (map sitemap_elem ls)"

definition urlset :: "string list \<Rightarrow> xml" where
  "urlset ls =
     Element ''{http://www.sitemaps.org/schemas/sitemap/0.9}urlset'' None (map url_elem ls)"

definition index_config :: PipelineConfig where
  "index_config =
     \<lparr> docusaurus_url = ''https://example.com/'', sitemap_url = ''https://example.com/sitemap.xml'',
       cohere_model = ''embed-english-v3.0'', cohere_batch_size = 96, chunk_size = 512,
       chunk_overlap = 50 \<rparr>"

text \<open>
  A site whose sitemap is an index of two nested sitemaps, \<open>sitemap-docs.xml\<close> and
  \<open>sitemap-blog.xml\<close>, with three \<open>url\<close> entries each. The bodies served are named
  \<open>index\<close>, \<open>docs\<close> and \<open>blog\<close>; the table of the library gives their parse trees.
\<close>

definition docs_pages :: "string list" where
  "docs_pages = [''https://example.com/docs/a'', ''https://example.com/docs/b'',
                 ''https://example.com/docs/c'']"

definition blog_pages :: "string list" where
  "blog_pages = [''https://example.com/blog/x'', ''https://example.com/blog/y'',
                 ''https://example.com/blog/z'']"

definition site_web :: web where
  "site_web = table_web
     [(''https://example.com/sitemap.xml'', ''index''),
      (''https://example.com/sitemap-docs.xml'', ''docs''),
      (''https://example.com/sitemap-blog.xml'', ''blog'')]"

definition site_lxml :: lxml where
  "site_lxml = table_lxml
     [(''index'', sitemapindex [''https://example.com/sitemap-docs.xml'',
                                ''https://example.com/sitemap-blog.xml'']),
      (''docs'', urlset docs_pages), (''blog'', urlset blog_pages)]"

lemma strip_tag_ns:
  "strip_tag (''{http://www.sitemaps.org/schemas/sitemap/0.9}'' @ t) = t"
  by (simp add: strip_tag_def starts_with_def)

lemma strip_urlset:
  "strip_namespaces (urlset [a, b, c]) =
     Element ''urlset'' None
       [Element ''url'' None [Element ''loc'' (Some a) []],
        Element ''url'' None [Element ''loc'' (Some b) []],
        Element ''url'' None [Element ''loc'' (Some c) []]]"
  using strip_tag_ns [of "''urlset''"] strip_tag_ns [of "''url''"] strip_tag_ns [of "''loc''"]
  by (simp add: urlset_def url_elem_def)

lemma strip_sitemapindex:
  "strip_namespaces (sitemapindex [a, b]) =
     Element ''sitemapindex'' None
       [Element ''sitemap'' None [Element ''loc'' (Some a) []],
        Element ''sitemap'' None [Element ''loc'' (Some b) []]]"
  using strip_tag_ns [of "''sitemapindex''"] strip_tag_ns [of "''sitemap''"]
    strip_tag_ns [of "''loc''"]
  by (simp add: sitemapindex_def sitemap_elem_def)

lemma xpath_url_urlset:
  "xpath_url (strip_namespaces (urlset [a, b, c])) =
     [Element ''url'' None [Element ''loc'' (Some a) []],
      Element ''url'' None [Element ''loc'' (Some b) []],
      Element ''url'' None [Element ''loc'' (Some c) []]]"
  by (simp add: strip_urlset xpath_url_def strip_tag_def starts_with_def)

lemma site_index_followed:
  "map (sitemap_entry site_lxml site_web rnd)
     (findall (strip_namespaces (sitemapindex [''https://example.com/sitemap-docs.xml'',
                                               ''https://example.com/sitemap-blog.xml'']))
        ''sitemap'')
   = [fetch_nested_sitemap site_lxml site_web rnd ''https://example.com/sitemap-docs.xml'',
      fetch_nested_sitemap site_lxml site_web rnd ''https://example.com/sitemap-blog.xml'']"
proof -
  have c1: "\<not> contains ''sitemap.xml'' ''https://example.com/sitemap-docs.xml''"
    by (simp add: starts_with_def)
  have c2: "\<not> contains ''sitemap.xml'' ''https://example.com/sitemap-blog.xml''"
    by (simp add: starts_with_def)
  show ?thesis
    by (simp add: strip_sitemapindex findall_def find_child_def sitemap_entry_def c1 c2
        del: contains.simps)
qed

text \<open>
  Claim C7 says that a sitemap index with two nested sitemaps of three \<open>url\<close> entries each
  yields six URLs. Both nested sitemaps of the site are followed (their addresses do not
  contain \<open>sitemap.xml\<close>), fetched with status 200 and parsed, and each has three \<open>url\<close>
  elements; but the lookup of the \<open>loc\<close> element raises on the first of them,
  \<open>_fetch_nested_sitemap\<close> catches the exception and returns the empty list, and
  \<open>fetch_sitemap\<close> returns no URL at all. The same holds of every nested sitemap, whatever
  the server answers and whatever the parser returns.
\<close>

theorem nested_sitemaps_yield_no_url:
  "fetch_sitemap index_config site_lxml site_web (\<lambda>a. 0) = Inr [] \<and>
   site_web ''https://example.com/sitemap-docs.xml'' 0 = Response 200 ''docs'' \<and>
   site_web ''https://example.com/sitemap-blog.xml'' 0 = Response 200 ''blog'' \<and>
   map (map_sum id (\<lambda>t. length (xpath_url (strip_namespaces t))))
     [fromstring site_lxml ''docs'', fromstring site_lxml ''blog''] = [Inr 3, Inr 3] \<and>
   fetch_nested_sitemap (table_lxml docs) web rnd url = []"
proof -
  have r: "fst (retry_with_exponential_backoff
                  (\<lambda>attempt. fetch_once (site_web (sitemap_url index_config) attempt))
                  3 2 60 (1 / 10) client_or_timeout (\<lambda>a. 0)) = Inr ''index''"
    by (rule retry_first_attempt)
       (simp add: site_web_def table_web_def index_config_def fetch_once_def)
  have p: "fromstring site_lxml ''index'' =
             Inr (sitemapindex [''https://example.com/sitemap-docs.xml'',
                                ''https://example.com/sitemap-blog.xml''])"
    by (simp add: site_lxml_def table_lxml_def)
  have e: "find_descendant_loc site_lxml = elementpath_find"
    "find_descendant_loc (table_lxml docs) = elementpath_find"
    by (simp_all add: site_lxml_def table_lxml_def)
  have u: "findall (strip_namespaces (sitemapindex [''https://example.com/sitemap-docs.xml'',
                                               ''https://example.com/sitemap-blog.xml'']))
             ''url'' = []"
    by (simp add: strip_sitemapindex findall_def)
  have "fetch_sitemap index_config site_lxml site_web (\<lambda>a. 0) = Inr []"
    by (simp add: fetch_sitemap_def r p Let_def site_index_followed u
        fetch_nested_sitemap_elementpath [OF e(1)] del: map_eq_Cons_conv)
  moreover have "site_web ''https://example.com/sitemap-docs.xml'' 0 = Response 200 ''docs''"
    "site_web ''https://example.com/sitemap-blog.xml'' 0 = Response 200 ''blog''"
    by (simp_all add: site_web_def table_web_def)
  moreover have "map (map_sum id (\<lambda>t. length (xpath_url (strip_namespaces t))))
     [fromstring site_lxml ''docs'', fromstring site_lxml ''blog''] = [Inr 3, Inr 3]"
    by (simp add: site_lxml_def table_lxml_def docs_pages_def blog_pages_def xpath_url_urlset)
  moreover have "fetch_nested_sitemap (table_lxml docs) web rnd url = []"
    using e(2) by (rule fetch_nested_sitemap_elementpath)
  ultimately show ?thesis by simp
qed

section \<open>Text normalization (services/extractor.py)\<close>

subsection \<open>Texts without tabs and without two adjacent spaces\<close>

fun lead_blank :: "string \<Rightarrow> bool" where
  "lead_blank [] = False"
| "lead_blank (c # cs) = blank c"

fun single_spaced :: "string \<Rightarrow> bool" where
  "single_spaced [] = True"
| "single_spaced (c # cs) = (c \<noteq> tab \<and> \<not> (c = sp \<and> lead_blank cs) \<and> single_spaced cs)"

lemma blank_simps [simp]: "blank sp" "blank tab" "\<not> blank nl"
  by (simp_all add: blank_def sp_def tab_def nl_def)

lemma space_simps [simp]: "is_space sp" "is_space tab" "is_space nl"
  by (simp_all add: is_space_def sp_def tab_def nl_def)

lemma char_distinct [simp]: "sp \<noteq> tab" "sp \<noteq> nl" "tab \<noteq> nl" "tab \<noteq> sp" "nl \<noteq> sp" "nl \<noteq> tab"
  by (simp_all add: sp_def tab_def nl_def)

lemma blank_is_space: "blank c \<Longrightarrow> is_space c"
  by (auto simp: blank_def)

lemma lead_blank_dropWhile [simp]: "\<not> lead_blank (dropWhile blank s)"
  by (induction s) auto

lemma dropWhile_not_lead: "\<not> lead_blank s \<Longrightarrow> dropWhile blank s = s"
  by (cases s) auto

lemma lead_blank_append: "lead_blank a \<Longrightarrow> lead_blank (a @ b)"
  by (cases a) auto

lemma lead_blank_collapse_blanks [simp]: "lead_blank (collapse_blanks s) = lead_blank s"
  by (cases s) auto

lemma lead_blank_drop_blanks_after_nl [simp]:
  "lead_blank (drop_blanks_after_nl s) = lead_blank s"
  by (cases s) auto

lemma lead_blank_collapse_newlines [simp]: "lead_blank (collapse_newlines s) = lead_blank s"
  by (cases s) auto

lemma single_spaced_dropWhile: "single_spaced s \<Longrightarrow> single_spaced (dropWhile P s)"
  by (induction s) auto

lemma single_spaced_append_left: "single_spaced (a @ b) \<Longrightarrow> single_spaced a"
  by (induction a) (auto dest: lead_blank_append)

lemma single_spaced_no_blank_prefix:
  "\<forall>c\<in>set p. \<not> blank c \<Longrightarrow> single_spaced (p @ s) = single_spaced s"
  by (induction p) (auto simp: blank_def)

lemma single_spaced_join:
  "\<not> blank c \<Longrightarrow> single_spaced (x @ c # r) = (single_spaced x \<and> single_spaced r)"
proof (induction x)
  case Nil
  then show ?case by (auto simp: blank_def)
next
  case (Cons a x)
  then show ?case by (cases x) auto
qed

lemma single_spaced_collapse_blanks: "single_spaced (collapse_blanks s)"
  by (induction s rule: collapse_blanks.induct) (auto simp: blank_def)

lemma collapse_blanks_id: "single_spaced s \<Longrightarrow> collapse_blanks s = s"
  by (induction s) (auto simp: blank_def dropWhile_not_lead)

lemma single_spaced_drop_blanks_after_nl:
  "single_spaced s \<Longrightarrow> single_spaced (drop_blanks_after_nl s)"
  by (induction s rule: drop_blanks_after_nl.induct) (auto simp: single_spaced_dropWhile)

lemma single_spaced_collapse_newlines:
  "single_spaced s \<Longrightarrow> single_spaced (collapse_newlines s)"
proof (induction s rule: collapse_newlines.induct)
  case 1
  then show ?case by simp
next
  case (2 c cs)
  show ?case
  proof (cases "c = nl")
    case True
    let ?p = "if 2 \<le> length (takeWhile (\<lambda>x. x = nl) cs) then [nl, nl]
              else nl # takeWhile (\<lambda>x. x = nl) cs"
    have p: "\<forall>x\<in>set ?p. \<not> blank x"
      by (auto dest: set_takeWhileD)
    from 2 True have "single_spaced (collapse_newlines (dropWhile (\<lambda>x. x = nl) cs))"
      by (auto simp: single_spaced_dropWhile)
    then have "single_spaced (?p @ collapse_newlines (dropWhile (\<lambda>x. x = nl) cs))"
      using single_spaced_no_blank_prefix [OF p] by blast
    then show ?thesis using True by simp
  next
    case False
    with 2 show ?thesis by auto
  qed
qed

subsection \<open>Lines\<close>

lemma split_nl_not_Nil [simp]: "split_nl s \<noteq> []"
  by (induction s) auto

lemma lead_blank_hd_split_nl: "lead_blank (hd (split_nl s)) \<Longrightarrow> lead_blank s"
  by (cases s) (auto split: if_splits)

lemma set_split_nl_Cons:
  "c \<noteq> nl \<Longrightarrow> l \<in> set (split_nl (c # cs)) \<Longrightarrow>
   l = c # hd (split_nl cs) \<or> l \<in> set (split_nl cs)"
  by (auto dest: list.set_sel(2) [OF split_nl_not_Nil])

lemma single_spaced_split_nl:
  "single_spaced s \<Longrightarrow> l \<in> set (split_nl s) \<Longrightarrow> single_spaced l"
proof (induction s arbitrary: l)
  case Nil
  then show ?case by simp
next
  case (Cons c cs)
  show ?case
  proof (cases "c = nl")
    case True
    with Cons show ?thesis by auto
  next
    case False
    from set_split_nl_Cons [OF False Cons.prems(2)]
    show ?thesis
    proof
      assume l: "l = c # hd (split_nl cs)"
      have "single_spaced (hd (split_nl cs))"
        using Cons by (auto intro: Cons.IH)
      with Cons.prems(1) l show ?thesis
        by (auto dest: lead_blank_hd_split_nl)
    next
      assume "l \<in> set (split_nl cs)"
      with Cons show ?thesis by auto
    qed
  qed
qed

lemma nl_free_split_nl: "l \<in> set (split_nl s) \<Longrightarrow> nl \<notin> set l"
proof (induction s arbitrary: l)
  case Nil
  then show ?case by simp
next
  case (Cons c cs)
  show ?case
  proof (cases "c = nl")
    case True
    with Cons show ?thesis by auto
  next
    case False
    from set_split_nl_Cons [OF False Cons.prems]
    show ?thesis
    proof
      assume l: "l = c # hd (split_nl cs)"
      have "nl \<notin> set (hd (split_nl cs))"
        by (rule Cons.IH) simp
      with False l show ?thesis by auto
    next
      assume "l \<in> set (split_nl cs)"
      then show ?thesis by (rule Cons.IH)
    qed
  qed
qed

subsection \<open>strip\<close>

lemma rstrip_prefix: "rstrip s @ rev (takeWhile is_space (rev s)) = s"
proof -
  have "rev (takeWhile is_space (rev s) @ dropWhile is_space (rev s)) = s"
    by simp
  then show ?thesis
    unfolding rstrip_def rev_append .
qed

lemma single_spaced_strip: "single_spaced s \<Longrightarrow> single_spaced (strip s)"
proof -
  assume "single_spaced s"
  then have "single_spaced (lstrip s)"
    by (simp add: lstrip_def single_spaced_dropWhile)
  then have "single_spaced (rstrip (lstrip s) @ rev (takeWhile is_space (rev (lstrip s))))"
    by (simp only: rstrip_prefix)
  then show ?thesis
    unfolding strip_def by (rule single_spaced_append_left)
qed

lemma set_strip: "set (strip s) \<subseteq> set s"
proof
  fix x
  assume "x \<in> set (strip s)"
  then have "x \<in> set (dropWhile is_space (rev (dropWhile is_space s)))"
    by (simp add: strip_def rstrip_def lstrip_def)
  then have "x \<in> set (rev (dropWhile is_space s))"
    by (rule set_dropWhileD)
  then have "x \<in> set (dropWhile is_space s)"
    by simp
  then show "x \<in> set s"
    by (rule set_dropWhileD)
qed

lemma last_strip: "strip s \<noteq> [] \<Longrightarrow> \<not> is_space (last (strip s))"
  unfolding strip_def rstrip_def
  by (simp add: last_rev hd_dropWhile)

lemma hd_strip: "strip s \<noteq> [] \<Longrightarrow> \<not> is_space (hd (strip s))"
proof -
  assume n: "strip s \<noteq> []"
  have "strip s @ rev (takeWhile is_space (rev (lstrip s))) = lstrip s"
    unfolding strip_def by (rule rstrip_prefix)
  with n have "hd (lstrip s) = hd (strip s)" "lstrip s \<noteq> []"
    by (metis hd_append2, metis append_is_Nil_conv)
  then show ?thesis
    unfolding lstrip_def using hd_dropWhile by metis
qed

lemma strip_id: "s \<noteq> [] \<Longrightarrow> \<not> is_space (hd s) \<Longrightarrow> \<not> is_space (last s) \<Longrightarrow> strip s = s"
proof -
  assume s: "s \<noteq> []" "\<not> is_space (hd s)" "\<not> is_space (last s)"
  then have "dropWhile is_space s = s"
    by (cases s) auto
  moreover from s have "dropWhile is_space (rev s) = rev s"
    by (cases "rev s") (auto simp: last_rev [symmetric] hd_rev)
  ultimately show ?thesis
    by (simp add: strip_def lstrip_def rstrip_def)
qed

lemma strip_Nil [simp]: "strip [] = []"
  by (simp add: strip_def lstrip_def rstrip_def)

subsection \<open>Normalized lines and their join\<close>

text \<open>
  A normalized line is not empty, begins and ends with a character that is not white
  space, and has no newline, no tab and no two adjacent spaces.
\<close>

definition clean :: "string \<Rightarrow> bool" where
  "clean l = (l \<noteq> [] \<and> \<not> is_space (hd l) \<and> \<not> is_space (last l) \<and> nl \<notin> set l \<and> single_spaced l)"

lemma clean_lines:
  "l \<in> set (filter (\<lambda>line. line \<noteq> [])
      (map strip (split_nl (collapse_newlines (drop_blanks_after_nl (collapse_blanks t))))))
   \<Longrightarrow> clean l"
proof -
  let ?s = "collapse_newlines (drop_blanks_after_nl (collapse_blanks t))"
  assume "l \<in> set (filter (\<lambda>line. line \<noteq> []) (map strip (split_nl ?s)))"
  then obtain r where r: "r \<in> set (split_nl ?s)" "l = strip r" "l \<noteq> []"
    by auto
  have "single_spaced ?s"
    by (intro single_spaced_collapse_newlines single_spaced_drop_blanks_after_nl
        single_spaced_collapse_blanks)
  with r have "single_spaced r" "nl \<notin> set r"
    by (auto intro: single_spaced_split_nl dest: nl_free_split_nl)
  with r show ?thesis
    using set_strip [of r]
    by (auto simp: clean_def single_spaced_strip hd_strip last_strip)
qed

lemma join_not_Nil: "ls \<noteq> [] \<Longrightarrow> \<forall>l\<in>set ls. l \<noteq> [] \<Longrightarrow> join_with sep ls \<noteq> []"
  by (induction sep ls rule: join_with.induct) auto

lemma hd_join: "ls \<noteq> [] \<Longrightarrow> \<forall>l\<in>set ls. l \<noteq> [] \<Longrightarrow> hd (join_with sep ls) = hd (hd ls)"
  by (induction sep ls rule: join_with.induct) auto

lemma last_join:
  "ls \<noteq> [] \<Longrightarrow> \<forall>l\<in>set ls. l \<noteq> [] \<Longrightarrow> last (join_with sep ls) = last (last ls)"
  by (induction sep ls rule: join_with.induct) (auto simp: join_not_Nil)

lemma lead_blank_hd: "s \<noteq> [] \<Longrightarrow> lead_blank s = blank (hd s)"
  by (cases s) auto

lemma join_lead: "\<forall>l\<in>set (y # ys). clean l \<Longrightarrow> \<not> lead_blank (join_with [nl] (y # ys))"
proof -
  assume c: "\<forall>l\<in>set (y # ys). clean l"
  then have n: "\<forall>l\<in>set (y # ys). l \<noteq> []"
    by (simp add: clean_def)
  have "join_with [nl] (y # ys) \<noteq> []" "hd (join_with [nl] (y # ys)) = hd y"
    using join_not_Nil [OF _ n] hd_join [OF _ n] by simp_all
  moreover from c have "\<not> blank (hd y)"
    by (auto simp: clean_def dest: blank_is_space)
  ultimately show ?thesis
    by (simp add: lead_blank_hd)
qed

lemma join_hd_not_nl: "\<forall>l\<in>set (y # ys). clean l \<Longrightarrow>
  \<exists>c cs. join_with [nl] (y # ys) = c # cs \<and> c \<noteq> nl"
proof -
  assume c: "\<forall>l\<in>set (y # ys). clean l"
  then have n: "\<forall>l\<in>set (y # ys). l \<noteq> []"
    by (simp add: clean_def)
  have j: "join_with [nl] (y # ys) \<noteq> []" "hd (join_with [nl] (y # ys)) = hd y"
    using join_not_Nil [OF _ n] hd_join [OF _ n] by simp_all
  from c have "hd y \<in> set y" "nl \<notin> set y"
    by (auto simp: clean_def)
  then have "hd y \<noteq> nl" by metis
  with j show ?thesis
    by (cases "join_with [nl] (y # ys)") auto
qed

lemma single_spaced_joined: "\<forall>l\<in>set ls. clean l \<Longrightarrow> single_spaced (join_with [nl] ls)"
  by (induction "[nl]" ls rule: join_with.induct) (auto simp: single_spaced_join clean_def)

lemma drop_blanks_after_nl_append:
  "nl \<notin> set x \<Longrightarrow> drop_blanks_after_nl (x @ s) = x @ drop_blanks_after_nl s"
  by (induction x) auto

lemma drop_blanks_after_nl_joined:
  "\<forall>l\<in>set ls. clean l \<Longrightarrow> drop_blanks_after_nl (join_with [nl] ls) = join_with [nl] ls"
proof (induction "[nl]" ls rule: join_with.induct)
  case 1
  then show ?case by simp
next
  case (2 x)
  then show ?case
    using drop_blanks_after_nl_append [of x "[]"] by (simp add: clean_def)
next
  case (3 x y ys)
  then have "\<not> lead_blank (join_with [nl] (y # ys))"
    by (intro join_lead) simp
  with 3 show ?case
    by (simp add: drop_blanks_after_nl_append clean_def dropWhile_not_lead)
qed

lemma collapse_newlines_append:
  "nl \<notin> set x \<Longrightarrow> collapse_newlines (x @ s) = x @ collapse_newlines s"
  by (induction x) auto

lemma collapse_newlines_joined:
  "\<forall>l\<in>set ls. clean l \<Longrightarrow> collapse_newlines (join_with [nl] ls) = join_with [nl] ls"
proof (induction "[nl]" ls rule: join_with.induct)
  case 1
  then show ?case by simp
next
  case (2 x)
  then show ?case
    using collapse_newlines_append [of x "[]"] by (simp add: clean_def)
next
  case (3 x y ys)
  then obtain c cs where j: "join_with [nl] (y # ys) = c # cs" "c \<noteq> nl"
    using join_hd_not_nl [of y ys] by auto
  have "collapse_newlines (nl # c # cs) = nl # collapse_newlines (c # cs)"
    using j(2) by (simp del: collapse_newlines.simps add: collapse_newlines.simps(2) [of nl])
  with 3 j show ?case
    by (simp add: collapse_newlines_append clean_def del: collapse_newlines.simps)
qed

lemma split_nl_append:
  "nl \<notin> set x \<Longrightarrow> split_nl (x @ nl # s) = x # split_nl s"
  by (induction x) auto

lemma split_nl_nl_free: "nl \<notin> set x \<Longrightarrow> split_nl x = [x]"
  by (induction x) auto

lemma split_nl_joined:
  "ls \<noteq> [] \<Longrightarrow> \<forall>l\<in>set ls. clean l \<Longrightarrow> split_nl (join_with [nl] ls) = ls"
  by (induction "[nl]" ls rule: join_with.induct)
     (auto simp: split_nl_append split_nl_nl_free clean_def)

lemma strip_clean: "clean l \<Longrightarrow> strip l = l"
  by (simp add: clean_def strip_id)

lemma strip_joined:
  "ls \<noteq> [] \<Longrightarrow> \<forall>l\<in>set ls. clean l \<Longrightarrow> strip (join_with [nl] ls) = join_with [nl] ls"
proof -
  assume ls: "ls \<noteq> []" "\<forall>l\<in>set ls. clean l"
  then have n: "\<forall>l\<in>set ls. l \<noteq> []"
    by (simp add: clean_def)
  from ls have "clean (hd ls)" "clean (last ls)"
    by simp_all
  then show ?thesis
    using join_not_Nil [OF ls(1) n] hd_join [OF ls(1) n] last_join [OF ls(1) n]
    by (intro strip_id) (simp_all add: clean_def)
qed

lemma normalize_text_joined:
  assumes "ls \<noteq> []" "\<forall>l\<in>set ls. clean l"
  shows "normalize_text (join_with [nl] ls) = join_with [nl] ls"
proof -
  have n: "\<forall>l\<in>set ls. l \<noteq> []"
    using assms by (simp add: clean_def)
  have m: "map strip ls = ls"
    using assms by (simp add: map_idI strip_clean)
  have f: "filter (\<lambda>line. line \<noteq> []) ls = ls"
    using n by simp
  show ?thesis
    using assms join_not_Nil [OF assms(1) n]
    by (simp add: normalize_text_def Let_def collapse_blanks_id single_spaced_joined
        drop_blanks_after_nl_joined collapse_newlines_joined split_nl_joined m f strip_joined)
qed

lemma normalize_text_is_join:
  "\<exists>ls. (\<forall>l\<in>set ls. clean l) \<and> normalize_text t = join_with [nl] ls"
proof (cases "t = []")
  case True
  then have "normalize_text t = join_with [nl] []"
    by (simp add: normalize_text_def)
  then show ?thesis by (intro exI [of _ "[]"]) simp
next
  case False
  let ?ls = "filter (\<lambda>line. line \<noteq> [])
      (map strip (split_nl (collapse_newlines (drop_blanks_after_nl (collapse_blanks t)))))"
  have c: "\<forall>l\<in>set ?ls. clean l"
    using clean_lines by blast
  have "strip (join_with [nl] ?ls) = join_with [nl] ?ls"
  proof (cases "?ls = []")
    case True
    then show ?thesis by simp
  next
    case False
    then show ?thesis using c by (rule strip_joined)
  qed
  then have "normalize_text t = join_with [nl] ?ls"
    using False by (simp add: normalize_text_def Let_def)
  with c show ?thesis by blast
qed

text \<open>
  Claim C8: \<open>_normalize_text\<close> is idempotent.
\<close>

theorem normalize_text_idempotent:
  "normalize_text (normalize_text t) = normalize_text t"
proof -
  obtain ls where ls: "\<forall>l\<in>set ls. clean l" "normalize_text t = join_with [nl] ls"
    using normalize_text_is_join by blast
  show ?thesis
  proof (cases "ls = []")
    case True
    with ls show ?thesis by (simp add: normalize_text_def)
  next
    case False
    with ls show ?thesis by (simp add: normalize_text_joined)
  qed
qed

subsection \<open>Blank lines\<close>

lemma contains_nl_nl_append:
  "nl \<notin> set x \<Longrightarrow> contains [nl, nl] (x @ s) = contains [nl, nl] s"
  by (induction x) (auto simp: starts_with_def)

lemma contains_nl_nl_free: "nl \<notin> set x \<Longrightarrow> \<not> contains [nl, nl] x"
  using contains_nl_nl_append [of x "[]"] by simp

lemma no_blank_line_joined:
  "\<forall>l\<in>set ls. clean l \<Longrightarrow> \<not> contains [nl, nl] (join_with [nl] ls)"
proof (induction "[nl]" ls rule: join_with.induct)
  case 1
  then show ?case by simp
next
  case (2 x)
  then show ?case by (simp add: contains_nl_nl_free clean_def)
next
  case (3 x y ys)
  then obtain c cs where j: "join_with [nl] (y # ys) = c # cs" "c \<noteq> nl"
    using join_hd_not_nl [of y ys] by auto
  from 3 have "\<not> contains [nl, nl] (join_with [nl] (y # ys))" "nl \<notin> set x"
    by (simp_all add: clean_def)
  with j show ?case
    by (simp add: contains_nl_nl_append starts_with_def del: join_with.simps
        add: join_with.simps(3))
qed

lemma not_space_letters: "\<not> is_space CHR ''P''" "\<not> is_space CHR ''.''"
  by (simp_all add: is_space_def)

lemma two_paragraphs:
  "normalize_text ''Para one.\<newline>\<newline>Para two.'' = ''Para one.\<newline>Para two.''"
proof -
  let ?t = "''Para one.\<newline>\<newline>Para two.''"
  have t: "?t = ''Para one.'' @ nl # [] @ nl # ''Para two.''"
    by (simp add: nl_def)
  have n: "nl \<notin> set ''Para one.''" "nl \<notin> set ''Para two.''" "nl \<notin> set ''''"
    by (simp_all add: nl_def)
  have "single_spaced ?t"
    by (simp add: blank_def sp_def tab_def)
  then have c1: "collapse_blanks ?t = ?t"
    by (rule collapse_blanks_id)
  have c2: "drop_blanks_after_nl ?t = ?t"
    by (simp add: nl_def blank_def sp_def tab_def)
  have c3: "collapse_newlines ?t = ?t"
    by (simp add: nl_def)
  have s3: "split_nl ''Para two.'' = [''Para two.'']"
    by (rule split_nl_nl_free [OF n(2)])
  have s2: "split_nl ([] @ nl # ''Para two.'') = [] # split_nl ''Para two.''"
    by (rule split_nl_append [OF n(3)])
  have s1: "split_nl (''Para one.'' @ nl # [] @ nl # ''Para two.'')
              = ''Para one.'' # split_nl ([] @ nl # ''Para two.'')"
    by (rule split_nl_append [OF n(1)])
  have "split_nl (''Para one.'' @ nl # [] @ nl # ''Para two.'') = [''Para one.'', [], ''Para two.'']"
    by (simp only: s1 s2 s3)
  then have s: "split_nl ?t = [''Para one.'', [], ''Para two.'']"
    by (simp only: t)
  have p: "strip ''Para one.'' = ''Para one.''" "strip ''Para two.'' = ''Para two.''"
    by (rule strip_id; simp add: not_space_letters)+
  have j: "strip ''Para one.\<newline>Para two.'' = ''Para one.\<newline>Para two.''"
    by (rule strip_id; simp add: not_space_letters)
  have "normalize_text ?t = strip (join_with [nl] [''Para one.'', ''Para two.''])"
    unfolding normalize_text_def Let_def c1 c2 c3 s by (simp add: p)
  also have "join_with [nl] [''Para one.'', ''Para two.''] = ''Para one.\<newline>Para two.''"
    by (simp add: nl_def)
  finally show ?thesis
    by (simp only: j)
qed

text \<open>
  Claim C4 says that an empty line is dropped only when it is surrounded by empty lines,
  so that a single blank line between two paragraphs is kept. \<open>_normalize_text\<close> keeps
  only the lines that are not empty after \<open>strip\<close>: two paragraphs separated by one blank
  line come out separated by one newline, and no normalized text has two newlines in a
  row.
\<close>

theorem normalize_text_drops_every_blank_line:
  "normalize_text ''Para one.\<newline>\<newline>Para two.'' = ''Para one.\<newline>Para two.'' \<and>
   \<not> contains [nl, nl] (normalize_text t)"
proof
  show "normalize_text ''Para one.\<newline>\<newline>Para two.'' = ''Para one.\<newline>Para two.''"
    by (rule two_paragraphs)
  obtain ls where "\<forall>l\<in>set ls. clean l" "normalize_text t = join_with [nl] ls"
    using normalize_text_is_join by blast
  then show "\<not> contains [nl, nl] (normalize_text t)"
    by (simp add: no_blank_line_joined)
qed

section \<open>Chunking (services/chunker.py)\<close>

lemma starts_with_nl_nl:
  "starts_with [nl, nl] (c # cs) = (c = nl \<and> cs \<noteq> [] \<and> hd cs = nl)"
  by (cases cs) (auto simp: starts_with_def)

lemma split_paragraphs_single: "\<not> contains [nl, nl] t \<Longrightarrow> split_paragraphs t = [t]"
  by (induction t) (auto simp: starts_with_nl_nl)


lemma strip_strip: "strip (strip t) = strip t"
proof (cases "strip t = []")
  case True
  then show ?thesis by simp
next
  case False
  then show ?thesis
    by (intro strip_id hd_strip last_strip)
qed

lemma length_strip: "length (strip t) \<le> length t"
proof -
  have "length (strip t) \<le> length (dropWhile is_space t)"
    unfolding strip_def rstrip_def lstrip_def
    using length_dropWhile_le [of is_space "rev (dropWhile is_space t)"] by simp
  also have "\<dots> \<le> length t"
    by (rule length_dropWhile_le)
  finally show ?thesis .
qed

lemma add_unit_first: "add_unit config sep ([], [], 0) u = ([], u, count_tokens u)"
  by (simp add: add_unit_def Let_def)



definition chunker_config :: "int \<Rightarrow> int \<Rightarrow> PipelineConfig" where
  "chunker_config cs ov =
     \<lparr> docusaurus_url = ''https://example.com/'', sitemap_url = ''https://example.com/sitemap.xml'',
       cohere_model = ''embed-english-v3.0'', cohere_batch_size = 96, chunk_size = cs,
       chunk_overlap = ov \<rparr>"




subsection \<open>Short documents\<close>

lemma count_tokens_short: "length t < 10 \<Longrightarrow> count_tokens (strip t) \<le> 2"
  using length_strip [of t] by (simp add: count_tokens_def)

lemma split_text_short:
  assumes "\<not> contains [nl, nl] t" and "length t < 10" and "strip t \<noteq> []"
    and "2 \<le> chunk_size config"
  shows "split_text config t = [strip t]"
proof -
  have "\<not> 2 * count_tokens (strip t) > 3 * chunk_size config"
    using count_tokens_short [OF assms(2)] assms(4) by simp
  then have "add_paragraph config ([], [], 0) t = ([], strip t, count_tokens (strip t))"
    using assms(3) by (simp add: add_paragraph_def Let_def add_unit_first)
  then show ?thesis
    using assms(1,3) by (simp add: split_text_def split_paragraphs_single strip_strip)
qed

lemma DocumentPage_init_Inr:
  "DocumentPage_init sha256 url title text crawled hash_arg meta = Inr document \<Longrightarrow>
   extracted_text document = text \<and> text \<noteq> [] \<and> strip text \<noteq> [] \<and> length title \<le> 500"
  by (auto simp: DocumentPage_init_def split: if_splits)

lemma from_document_short:
  "length c < 10 \<Longrightarrow> from_document md5 document [c] token_counts char_positions = Inl ValidationError"
  by (simp add: from_document_def TextChunk_init_def)

text \<open>
  Claim C9: \<open>chunk_document\<close> raises on valid documents. For every \<open>DocumentPage\<close> that is
  constructed without error, when its text is shorter than 10 characters and is a single
  paragraph, and \<open>chunk_size\<close> is at least 2 (the default is 512), the splitter gives one
  chunk, the stripped text, which is shorter than 10 characters, and \<open>chunk_document\<close>
  raises the \<open>ValidationError\<close> of \<open>TextChunk\<close>.
\<close>

theorem chunk_document_raises_on_short_text:
  assumes "DocumentPage_init sha256 url title text crawled hash_arg meta = Inr document"
    and "length text < 10" and "\<not> contains [nl, nl] text" and "2 \<le> chunk_size config"
  shows "extracted_text document \<noteq> [] \<and>
         split_text config (extracted_text document) = [strip text] \<and>
         length (strip text) < 10 \<and>
         chunk_document config md5 document = Inl ValidationError"
proof -
  from DocumentPage_init_Inr [OF assms(1)]
  have d: "extracted_text document = text" "text \<noteq> []" "strip text \<noteq> []"
    by simp_all
  have s: "split_text config text = [strip text]"
    using assms(3) assms(2) d(3) assms(4) by (rule split_text_short)
  have l: "length (strip text) < 10"
    using length_strip [of "text"] assms(2) by simp
  have "chunk_document config md5 document = Inl ValidationError"
    by (simp add: chunk_document_def d s Let_def from_document_short [OF l])
  with d s l show ?thesis by simp
qed

text \<open>A stand-in for the digests, on which the results below do not depend.\<close>

definition no_digest :: "string \<Rightarrow> string" where
  "no_digest s = ''00000000000000000000000000000000''"

definition hello_page :: DocumentPage where
  "hello_page =
     \<lparr> dp_url = ''https://example.com/docs/hello'', dp_title = ''Hello'',
       extracted_text = ''Hello'', crawled_at = ''2025-01-01T00:00:00'', content_hash = [],
       dp_metadata = Map.empty \<rparr>"

theorem chunk_document_raises_on_short_text_witness:
  "DocumentPage_init no_digest ''https://example.com/docs/hello'' ''Hello'' ''Hello''
     ''2025-01-01T00:00:00'' None Map.empty = Inr hello_page \<and>
   split_text (chunker_config 512 50) (extracted_text hello_page) = [''Hello''] \<and>
   chunk_document (chunker_config 512 50) no_digest hello_page = Inl ValidationError"
proof -
  have s: "strip ''Hello'' = ''Hello''"
    by (simp add: strip_def lstrip_def rstrip_def is_space_def)
  have i: "DocumentPage_init no_digest ''https://example.com/docs/hello'' ''Hello'' ''Hello''
     ''2025-01-01T00:00:00'' None Map.empty = Inr hello_page"
    by (simp add: DocumentPage_init_def s hello_page_def)
  have c: "\<not> contains [nl, nl] ''Hello''"
    by (rule contains_nl_nl_free) (simp add: nl_def)
  have z: "2 \<le> chunk_size (chunker_config 512 50)"
    by (simp add: chunker_config_def)
  have "length ''Hello'' < 10"
    by simp
  from chunk_document_raises_on_short_text [OF i this c z, of no_digest] i
  show ?thesis
    by (simp add: s)
qed

end
